theory Spec2Isabelle
  imports Main "HOL-Library.Word"
begin

section \<open>Data model (types.ts)\<close>

text \<open>
  An optional property of a TypeScript interface is an \<open>option\<close> field: \<open>None\<close> is the
  absent (undefined) property. The record field \<open>m_id\<close> is the property \<^verbatim>\<open>_id\<close>.
  A timestamp is kept as the string the code stores; its instant is read through
  \<^verbatim>\<open>new Date(s).getTime()\<close>, which every function below takes as the parameter
  \<open>getTime\<close> (\<open>None\<close> is NaN, the result for an unparsable string).
  The text of a message and of the input box, which the user types, is a list of UTF-16
  code units, as a JavaScript string is; \<open>js\<close> gives the code units of an ASCII literal.
  Identities, user ids and timestamps are kept as \<open>string\<close>.
\<close>

type_synonym jsstring = "16 word list"

definition js :: "string \<Rightarrow> jsstring" where
  "js cs = map of_char cs"

datatype message_type = TextMsg | ImageMsg | VoiceMsg

text \<open>The three values of \<^verbatim>\<open>status\<close>; \<open>Failed\<close> is the value \<^verbatim>\<open>'error'\<close>.\<close>

datatype delivery_status = Sending | Sent | Failed

record deletion =
  d_userId :: string
  deletedAt :: string

record message =
  m_id :: "string option"
  fromUserId :: string
  toUserId :: string
  content :: jsstring
  messageType :: message_type
  imageUrl :: "string option"
  voiceUrl :: "string option"
  blobUrl :: "string option"
  voiceDuration :: "int option"
  timestamp :: string
  status :: "delivery_status option"
  isRead :: "bool option"
  isRecalled :: "bool option"
  deletedBy :: "deletion list option"

record user =
  userId :: string
  username :: string
  avatar :: "string option"
  token :: "string option"

record friend =
  f_userId :: string
  f_username :: string
  f_avatar :: "string option"
  unreadCount :: "nat option"
  lastMessage :: "message option"

section \<open>JavaScript helpers used by the handlers\<close>

text \<open>\<^verbatim>\<open>(m._id?.length || 0)\<close>: the length of the identity, 0 when it is absent.\<close>

definition idLength :: "message \<Rightarrow> nat" where
  "idLength m = (case m_id m of None \<Rightarrow> 0 | Some i \<Rightarrow> length i)"

text \<open>\<^verbatim>\<open>Array.prototype.findIndex\<close>; \<open>None\<close> is the result -1.\<close>

fun findIndex :: "('a \<Rightarrow> bool) \<Rightarrow> 'a list \<Rightarrow> nat option" where
  "findIndex P [] = None"
| "findIndex P (x # xs) = (if P x then Some 0 else map_option Suc (findIndex P xs))"

text \<open>
  \<^verbatim>\<open>Math.abs(new Date(a).getTime() - new Date(b).getTime()) < 5000\<close>;
  a comparison with NaN is false.
\<close>

definition within5000 :: "(string \<Rightarrow> int option) \<Rightarrow> string \<Rightarrow> string \<Rightarrow> bool" where
  "within5000 getTime a b =
     (case getTime a of
        None \<Rightarrow> False
      | Some t1 \<Rightarrow> (case getTime b of None \<Rightarrow> False | Some t2 \<Rightarrow> \<bar>t1 - t2\<bar> < 5000))"

text \<open>One optional property of an object spread: the later object wins where it has the property.\<close>

definition orElse :: "'a option \<Rightarrow> 'a option \<Rightarrow> 'a option" where
  "orElse new old = (case new of None \<Rightarrow> old | Some v \<Rightarrow> Some v)"

text \<open>
  \<^verbatim>\<open>{ ...a, ...b }\<close> for two messages: every property \<open>b\<close> has overrides that of \<open>a\<close>;
  the required properties are always taken from \<open>b\<close>.
\<close>

definition spread :: "message \<Rightarrow> message \<Rightarrow> message" where
  "spread a b =
     \<lparr> m_id = orElse (m_id b) (m_id a),
       fromUserId = fromUserId b,
       toUserId = toUserId b,
       content = content b,
       messageType = messageType b,
       imageUrl = orElse (imageUrl b) (imageUrl a),
       voiceUrl = orElse (voiceUrl b) (voiceUrl a),
       blobUrl = orElse (blobUrl b) (blobUrl a),
       voiceDuration = orElse (voiceDuration b) (voiceDuration a),
       timestamp = timestamp b,
       status = orElse (status b) (status a),
       isRead = orElse (isRead b) (isRead a),
       isRecalled = orElse (isRecalled b) (isRecalled a),
       deletedBy = orElse (deletedBy b) (deletedBy a) \<rparr>"

section \<open>The state updaters of the message log\<close>

text \<open>The predicate of \<^verbatim>\<open>findIndex\<close> in handleReceiveMessage.\<close>

definition optimisticCandidate :: "message \<Rightarrow> message \<Rightarrow> bool" where
  "optimisticCandidate msg m \<longleftrightarrow>
     content m = content msg \<and> messageType m = messageType msg \<and> idLength m < 20"

text \<open>The function passed to \<^verbatim>\<open>setMessages\<close> in handleReceiveMessage.\<close>

definition receiveUpdater ::
  "(string \<Rightarrow> int option) \<Rightarrow> user \<Rightarrow> message \<Rightarrow> message list \<Rightarrow> message list" where
  "receiveUpdater getTime u msg prev =
     (if list_ex (\<lambda>m. m_id m = m_id msg) prev then prev
      else if fromUserId msg = userId u then
        (case findIndex (optimisticCandidate msg) prev of
           None \<Rightarrow> prev @ [msg]
         | Some optimisticIndex \<Rightarrow>
             (let optimisticMsg = prev ! optimisticIndex in
              if within5000 getTime (timestamp optimisticMsg) (timestamp msg)
              then prev[optimisticIndex :=
                     (spread optimisticMsg msg)\<lparr>status := Some Sent, m_id := m_id msg\<rparr>]
              else prev @ [msg]))
      else prev @ [msg])"

text \<open>The condition under which handleMessageSent rewrites an entry.\<close>

definition sentMatches :: "(string \<Rightarrow> int option) \<Rightarrow> user \<Rightarrow> message \<Rightarrow> message \<Rightarrow> bool" where
  "sentMatches getTime u data msg \<longleftrightarrow>
     fromUserId msg = userId u \<and> content msg = content data \<and> idLength msg < 20 \<and>
     within5000 getTime (timestamp data) (timestamp msg)"

definition sentUpdater ::
  "(string \<Rightarrow> int option) \<Rightarrow> user \<Rightarrow> message \<Rightarrow> message list \<Rightarrow> message list" where
  "sentUpdater getTime u data prev =
     map (\<lambda>msg. if sentMatches getTime u data msg
                then msg\<lparr>m_id := m_id data, timestamp := timestamp data, status := Some Sent\<rparr>
                else msg) prev"

definition recallUpdater :: "string \<Rightarrow> message list \<Rightarrow> message list" where
  "recallUpdater messageId prev =
     map (\<lambda>msg. if m_id msg = Some messageId then msg\<lparr>isRecalled := Some True\<rparr> else msg) prev"

text \<open>\<^verbatim>\<open>(msg.deletedBy || [])\<close>\<close>

definition deletions :: "message \<Rightarrow> deletion list" where
  "deletions msg = (case deletedBy msg of None \<Rightarrow> [] | Some ds \<Rightarrow> ds)"

text \<open>\<^verbatim>\<open>{ ...msg, deletedBy: [...(msg.deletedBy || []), d] }\<close>\<close>

definition appendDeletion :: "deletion \<Rightarrow> message \<Rightarrow> message" where
  "appendDeletion d msg = msg\<lparr>deletedBy := Some (deletions msg @ [d])\<rparr>"

definition deleteUpdater :: "string \<Rightarrow> deletion \<Rightarrow> message list \<Rightarrow> message list" where
  "deleteUpdater messageId d prev =
     map (\<lambda>msg. if m_id msg = Some messageId then appendDeletion d msg else msg) prev"

definition readUpdater :: "user \<Rightarrow> message list \<Rightarrow> message list" where
  "readUpdater u prev =
     map (\<lambda>m. if fromUserId m = userId u then m\<lparr>isRead := Some True\<rparr> else m) prev"

section \<open>Component state, timers and outbound effects (Chat component)\<close>

text \<open>
  The events the client emits on the socket. The payload of \<^verbatim>\<open>sendMessage\<close> is the
  object the code builds, as a message record with the properties it does not set absent.
\<close>

datatype out_event =
    Join string
  | SendMessageEv message
  | Typing string string
  | StopTyping string string
  | MarkAsRead string string
  | RecallMessageEv string string "string option"
  | DeleteMessageEv string string

datatype toast_kind = TSuccess | TError | TInfo

text \<open>A toast text is a key of the translation table (\<^verbatim>\<open>t('...')\<close>) or a literal.\<close>

datatype toast_text = T string | Lit string

datatype effect =
    Emit out_event
  | ShowToast toast_text toast_kind
  | RefreshFriends
  | RefreshRequests
  | ScrollToBottom bool
  | PushChatUrl "string option"
  | FetchHistory string string
  | UploadVoice

text \<open>The callbacks the code passes to \<^verbatim>\<open>setTimeout\<close> for the two typing timers.\<close>

datatype timer_action = ClearTyping | EmitStopTyping string string

text \<open>
  The state of the component: the React state variables that the handlers below read or
  write, the two timer refs, the pending timeouts of the event loop (handle, due time in
  ms, callback) and the trace of effects in the order they are issued. \<open>socket\<close> is true
  when the state variable holds the Socket and false when it is null. Requests to the
  server, toasts, URL updates and scrolling are effects; the 50 ms delay of
  scrollToBottom, whose callback touches no state, is not a pending timeout here.
\<close>

record chat_state =
  socket :: bool
  friends :: "friend list"
  activeChat :: "friend option"
  messages :: "message list"
  inputText :: jsstring
  isTyping :: bool
  isLoading :: bool
  showVoiceRecorder :: bool
  senderTypingTimeoutRef :: "nat option"
  receiverTypingTimeoutRef :: "nat option"
  timers :: "(nat \<times> nat \<times> timer_action) list"
  nextTimer :: nat
  effects :: "effect list"

definition addEffect :: "effect \<Rightarrow> chat_state \<Rightarrow> chat_state" where
  "addEffect e s = s\<lparr>effects := effects s @ [e]\<rparr>"

definition emit :: "out_event \<Rightarrow> chat_state \<Rightarrow> chat_state" where
  "emit ev s = addEffect (Emit ev) s"

definition showToast :: "toast_text \<Rightarrow> toast_kind \<Rightarrow> chat_state \<Rightarrow> chat_state" where
  "showToast txt k s = addEffect (ShowToast txt k) s"

text \<open>The socket events among the effects, in the order they were emitted.\<close>

definition emitted :: "chat_state \<Rightarrow> out_event list" where
  "emitted s = concat (map (\<lambda>e. case e of Emit ev \<Rightarrow> [ev] | _ \<Rightarrow> []) (effects s))"

text \<open>\<^verbatim>\<open>clearTimeout(h)\<close>: the timeout with that handle no longer fires.\<close>

definition clearTimeout :: "nat \<Rightarrow> chat_state \<Rightarrow> chat_state" where
  "clearTimeout h s = s\<lparr>timers := filter (\<lambda>tm. fst tm \<noteq> h) (timers s)\<rparr>"

text \<open>\<^verbatim>\<open>if (ref.current) clearTimeout(ref.current)\<close>\<close>

definition clearRef :: "nat option \<Rightarrow> chat_state \<Rightarrow> chat_state" where
  "clearRef r s = (case r of None \<Rightarrow> s | Some h \<Rightarrow> clearTimeout h s)"

text \<open>
  \<^verbatim>\<open>setTimeout(cb, delay)\<close> called at time \<open>now\<close>: a fresh handle, due at \<open>now + delay\<close>.
  The handle is \<open>nextTimer s\<close>.
\<close>

definition setTimeout :: "nat \<Rightarrow> nat \<Rightarrow> timer_action \<Rightarrow> chat_state \<Rightarrow> chat_state" where
  "setTimeout now delay cb s =
     s\<lparr>timers := timers s @ [(nextTimer s, now + delay, cb)], nextTimer := Suc (nextTimer s)\<rparr>"

definition runCallback :: "timer_action \<Rightarrow> chat_state \<Rightarrow> chat_state" where
  "runCallback cb s =
     (case cb of
        ClearTyping \<Rightarrow> s\<lparr>isTyping := False\<rparr>
      | EmitStopTyping f t \<Rightarrow> emit (StopTyping f t) s)"

text \<open>
  The event loop runs the callback of the pending timeout \<open>h\<close> at time \<open>now\<close>, once it is
  due; the timeout is then no longer pending. Nothing happens for a handle that is not
  pending or not yet due.
\<close>

definition fireTimer :: "nat \<Rightarrow> nat \<Rightarrow> chat_state \<Rightarrow> chat_state" where
  "fireTimer now h s =
     (case find (\<lambda>tm. fst tm = h) (timers s) of
        None \<Rightarrow> s
      | Some (h', due, cb) \<Rightarrow>
          if due \<le> now then runCallback cb (clearTimeout h s) else s)"

definition initialState :: chat_state where
  "initialState =
     \<lparr> socket = False, friends = [], activeChat = None, messages = [], inputText = [],
       isTyping = False, isLoading = False, showVoiceRecorder = False,
       senderTypingTimeoutRef = None, receiverTypingTimeoutRef = None,
       timers = [], nextTimer = 1, effects = [] \<rparr>"

section \<open>Socket event handlers (the Event Router)\<close>

text \<open>The mount effect stores the socket in the state.\<close>

definition setSocket :: "chat_state \<Rightarrow> chat_state" where
  "setSocket s = s\<lparr>socket := True\<rparr>"

definition handleConnect :: "user \<Rightarrow> chat_state \<Rightarrow> chat_state" where
  "handleConnect u s =
     addEffect RefreshRequests (addEffect RefreshFriends (emit (Join (userId u)) s))"

definition handleReceiveMessage ::
  "(string \<Rightarrow> int option) \<Rightarrow> user \<Rightarrow> message \<Rightarrow> chat_state \<Rightarrow> chat_state" where
  "handleReceiveMessage getTime u msg s =
     addEffect RefreshFriends
       (case activeChat s of
          None \<Rightarrow> s
        | Some ac \<Rightarrow>
            if fromUserId msg = f_userId ac \<or> toUserId msg = f_userId ac then
              (let s1 = s\<lparr>isTyping := False\<rparr>;
                   s2 = clearRef (receiverTypingTimeoutRef s1) s1;
                   s3 = s2\<lparr>messages := receiveUpdater getTime u msg (messages s2)\<rparr>
               in if fromUserId msg = f_userId ac
                  then emit (MarkAsRead (userId u) (f_userId ac)) s3
                  else s3)
            else s)"

definition handleMessageSent ::
  "(string \<Rightarrow> int option) \<Rightarrow> user \<Rightarrow> message \<Rightarrow> chat_state \<Rightarrow> chat_state" where
  "handleMessageSent getTime u data s =
     s\<lparr>messages := sentUpdater getTime u data (messages s)\<rparr>"

definition handleMessageRecalled :: "string \<Rightarrow> chat_state \<Rightarrow> chat_state" where
  "handleMessageRecalled messageId s =
     addEffect RefreshFriends (s\<lparr>messages := recallUpdater messageId (messages s)\<rparr>)"

definition handleMessageDeleted :: "string \<Rightarrow> string \<Rightarrow> string \<Rightarrow> chat_state \<Rightarrow> chat_state" where
  "handleMessageDeleted messageId by at s =
     s\<lparr>messages := deleteUpdater messageId \<lparr>d_userId = by, deletedAt = at\<rparr> (messages s)\<rparr>"

text \<open>\<^verbatim>\<open>data.message || t('action.failed')\<close>: an empty or absent text falls back to the key.\<close>

definition handleRecallError :: "string option \<Rightarrow> chat_state \<Rightarrow> chat_state" where
  "handleRecallError message s =
     showToast (case message of
                  None \<Rightarrow> T ''action.failed''
                | Some m \<Rightarrow> if m = [] then T ''action.failed'' else Lit m) TError s"

definition handleNewRequest :: "chat_state \<Rightarrow> chat_state" where
  "handleNewRequest s = addEffect RefreshRequests (showToast (T ''modal.friendRequests'') TInfo s)"

definition handleRequestAccepted :: "chat_state \<Rightarrow> chat_state" where
  "handleRequestAccepted s =
     addEffect RefreshFriends
       (addEffect RefreshRequests (showToast (T ''action.accepted'') TSuccess s))"

definition handleMessagesRead :: "user \<Rightarrow> string \<Rightarrow> chat_state \<Rightarrow> chat_state" where
  "handleMessagesRead u byUserId s =
     (case activeChat s of
        None \<Rightarrow> s
      | Some ac \<Rightarrow>
          if f_userId ac = byUserId then s\<lparr>messages := readUpdater u (messages s)\<rparr> else s)"

text \<open>
  The \<^verbatim>\<open>userTyping\<close> handler, run at time \<open>now\<close>:
  \<^verbatim>\<open>activeChat?.userId === fromUserId\<close> is false when no conversation is active.
\<close>

definition onUserTyping :: "nat \<Rightarrow> string \<Rightarrow> chat_state \<Rightarrow> chat_state" where
  "onUserTyping now from s =
     (case activeChat s of
        None \<Rightarrow> s
      | Some ac \<Rightarrow>
          if f_userId ac = from then
            (let s1 = s\<lparr>isTyping := True\<rparr>;
                 s2 = clearRef (receiverTypingTimeoutRef s1) s1;
                 s3 = setTimeout now 5000 ClearTyping s2
             in s3\<lparr>receiverTypingTimeoutRef := Some (nextTimer s2)\<rparr>)
          else s)"

definition onUserStopTyping :: "string \<Rightarrow> chat_state \<Rightarrow> chat_state" where
  "onUserStopTyping from s =
     (case activeChat s of
        None \<Rightarrow> s
      | Some ac \<Rightarrow>
          if f_userId ac = from then
            (let s1 = s\<lparr>isTyping := False\<rparr>
             in clearRef (receiverTypingTimeoutRef s1) s1)
          else s)"

section \<open>Local actions (the Session Controller and the input handlers)\<close>

text \<open>
  selectChat up to its \<^verbatim>\<open>await\<close>. The history request is the effect \<open>FetchHistory\<close>;
  its outcome arrives later as \<open>selectChatLoaded\<close> or \<open>selectChatFailed\<close>, which carry
  the \<open>friend\<close> and \<open>socket\<close> the closure captured.
\<close>

definition selectChat :: "user \<Rightarrow> friend \<Rightarrow> bool \<Rightarrow> chat_state \<Rightarrow> chat_state" where
  "selectChat u friend updateUrl s =
     (let s0 = (if updateUrl then addEffect (PushChatUrl (Some (f_userId friend))) s else s);
          s1 = clearRef (senderTypingTimeoutRef s0) s0;
          s2 = clearRef (receiverTypingTimeoutRef s1) s1;
          s3 = (case activeChat s2 of
                  None \<Rightarrow> s2
                | Some ac \<Rightarrow>
                    if socket s2 then emit (StopTyping (userId u) (f_userId ac)) s2 else s2);
          s4 = s3\<lparr>isTyping := False, inputText := [], activeChat := Some friend,
                  messages := [], isLoading := True,
                  friends := map (\<lambda>f. if f_userId f = f_userId friend
                                       then f\<lparr>unreadCount := Some 0\<rparr> else f) (friends s3)\<rparr>
      in addEffect (FetchHistory (userId u) (f_userId friend)) s4)"

definition selectChatLoaded ::
  "user \<Rightarrow> friend \<Rightarrow> bool \<Rightarrow> message list option \<Rightarrow> chat_state \<Rightarrow> chat_state" where
  "selectChatLoaded u friend sock dataMessages s =
     (let s1 = s\<lparr>messages := (case dataMessages of None \<Rightarrow> [] | Some ms \<Rightarrow> ms)\<rparr>;
          s2 = (if sock then emit (MarkAsRead (userId u) (f_userId friend)) s1 else s1);
          s3 = addEffect (ScrollToBottom True) s2
      in s3\<lparr>isLoading := False\<rparr>)"

definition selectChatFailed :: "chat_state \<Rightarrow> chat_state" where
  "selectChatFailed s =
     (showToast (Lit ''Failed to load messages'') TError s)\<lparr>isLoading := False\<rparr>"

definition handleBackToFriends :: "chat_state \<Rightarrow> chat_state" where
  "handleBackToFriends s = addEffect (PushChatUrl None) (s\<lparr>activeChat := None\<rparr>)"

definition handleInputChange :: "user \<Rightarrow> nat \<Rightarrow> jsstring \<Rightarrow> chat_state \<Rightarrow> chat_state" where
  "handleInputChange u now text s =
     (let s0 = s\<lparr>inputText := text\<rparr> in
      case activeChat s0 of
        None \<Rightarrow> s0
      | Some ac \<Rightarrow>
          if \<not> socket s0 then s0
          else if length text > 0 then
            (let s1 = emit (Typing (userId u) (f_userId ac)) s0;
                 s2 = clearRef (senderTypingTimeoutRef s1) s1;
                 s3 = setTimeout now 2000 (EmitStopTyping (userId u) (f_userId ac)) s2
             in s3\<lparr>senderTypingTimeoutRef := Some (nextTimer s2)\<rparr>)
          else
            (let s1 = clearRef (senderTypingTimeoutRef s0) s0
             in emit (StopTyping (userId u) (f_userId ac)) s1))"

text \<open>
  \<^verbatim>\<open>String.prototype.trim\<close> removes the leading and trailing code units that are
  WhiteSpace or LineTerminator in ECMAScript: TAB, LF, VT, FF, CR, SP, NBSP, U+1680,
  U+2000 to U+200A, LS, PS, U+202F, U+205F, U+3000 and the byte order mark U+FEFF.
\<close>

definition isSpace :: "16 word \<Rightarrow> bool" where
  "isSpace c \<longleftrightarrow>
     c \<in> set [0x0009, 0x000A, 0x000B, 0x000C, 0x000D, 0x0020, 0x00A0, 0x1680,
               0x2000, 0x2001, 0x2002, 0x2003, 0x2004, 0x2005, 0x2006, 0x2007, 0x2008,
               0x2009, 0x200A, 0x2028, 0x2029, 0x202F, 0x205F, 0x3000, 0xFEFF]"

definition trim :: "jsstring \<Rightarrow> jsstring" where
  "trim t = rev (dropWhile isSpace (rev (dropWhile isSpace t)))"

text \<open>
  \<^verbatim>\<open>Math.random().toString(36).substr(2, 9)\<close>, from the base-36 text \<open>rnd\<close> of the
  random number.
\<close>

definition tempIdOf :: "string \<Rightarrow> string" where
  "tempIdOf rnd = take 9 (drop 2 rnd)"

text \<open>
  sendMessage; \<open>isoNow\<close> is \<^verbatim>\<open>new Date().toISOString()\<close> and \<open>rnd\<close> the random text.
\<close>

definition sendMessage :: "user \<Rightarrow> string \<Rightarrow> string \<Rightarrow> chat_state \<Rightarrow> chat_state" where
  "sendMessage u isoNow rnd s =
     (case activeChat s of
        None \<Rightarrow> s
      | Some ac \<Rightarrow>
          if trim (inputText s) = [] \<or> \<not> socket s then s
          else
            (let s1 = clearRef (senderTypingTimeoutRef s) s;
                 s2 = emit (StopTyping (userId u) (f_userId ac)) s1;
                 msgData = \<lparr> m_id = Some (tempIdOf rnd), fromUserId = userId u,
                             toUserId = f_userId ac, content = inputText s2,
                             messageType = TextMsg, imageUrl = None, voiceUrl = None,
                             blobUrl = None, voiceDuration = None, timestamp = isoNow,
                             status = Some Sent, isRead = None, isRecalled = None,
                             deletedBy = None \<rparr>;
                 s3 = emit (SendMessageEv msgData) s2;
                 s4 = s3\<lparr>messages := messages s3 @ [msgData], inputText := []\<rparr>
             in addEffect (ScrollToBottom True) (addEffect RefreshFriends s4)))"

definition handleRecallMessage :: "user \<Rightarrow> string \<Rightarrow> chat_state \<Rightarrow> chat_state" where
  "handleRecallMessage u messageId s =
     (if \<not> socket s \<or> messageId = [] then showToast (T ''action.failed'') TError s
      else if length messageId < 20
      then showToast (Lit ''Syncing message, please try again...'') TInfo s
      else
        (let s1 = emit (RecallMessageEv messageId (userId u) (map_option f_userId (activeChat s))) s;
             s2 = s1\<lparr>messages := recallUpdater messageId (messages s1)\<rparr>
         in showToast (T ''chat.youRecalled'') TSuccess s2))"

text \<open>handleDeleteMessage; \<open>isoNow\<close> is \<^verbatim>\<open>new Date().toISOString()\<close>.\<close>

definition handleDeleteMessage :: "user \<Rightarrow> string \<Rightarrow> string \<Rightarrow> chat_state \<Rightarrow> chat_state" where
  "handleDeleteMessage u isoNow messageId s =
     (if \<not> socket s \<or> messageId = [] then s
      else if length messageId < 20
      then showToast (Lit ''Syncing message, please try again...'') TInfo s
      else
        (let s1 = emit (DeleteMessageEv messageId (userId u)) s;
             s2 = s1\<lparr>messages :=
                       deleteUpdater messageId \<lparr>d_userId = userId u, deletedAt = isoNow\<rparr> (messages s1)\<rparr>
         in showToast (T ''action.deleted'') TSuccess s2))"

text \<open>
  handleFileUpload after its upload succeeded (the guard on file, conversation and socket
  passed before the \<^verbatim>\<open>await\<close>; \<open>ac\<close> is the captured conversation), and after it failed.
\<close>

definition handleFileUploaded ::
  "user \<Rightarrow> friend \<Rightarrow> string option \<Rightarrow> string \<Rightarrow> chat_state \<Rightarrow> chat_state" where
  "handleFileUploaded u ac dataImageUrl isoNow s =
     (let msgData = \<lparr> m_id = None, fromUserId = userId u, toUserId = f_userId ac,
                       content = js ''[Image]'', messageType = ImageMsg, imageUrl = dataImageUrl,
                       voiceUrl = None, blobUrl = None, voiceDuration = None, timestamp = isoNow,
                       status = Some Sent, isRead = None, isRecalled = None, deletedBy = None \<rparr>;
          s1 = emit (SendMessageEv msgData) s
      in s1\<lparr>messages := messages s1 @ [msgData]\<rparr>)"

definition handleFileUploadFailed :: "chat_state \<Rightarrow> chat_state" where
  "handleFileUploadFailed s = showToast (Lit ''Image upload failed'') TError s"

text \<open>The optimistic record of handleVoiceRecorded.\<close>

definition voiceOptimisticMsg ::
  "user \<Rightarrow> friend \<Rightarrow> string \<Rightarrow> string \<Rightarrow> string \<Rightarrow> int \<Rightarrow> message" where
  "voiceOptimisticMsg u ac isoNow tempId localUrl duration =
     \<lparr> m_id = Some tempId, fromUserId = userId u, toUserId = f_userId ac,
       content = js ''[Voice]'', messageType = VoiceMsg, imageUrl = None, voiceUrl = None,
       blobUrl = Some localUrl, voiceDuration = Some duration, timestamp = isoNow,
       status = Some Sending, isRead = None, isRecalled = None, deletedBy = None \<rparr>"

text \<open>handleVoiceRecorded up to the upload.\<close>

definition handleVoiceRecorded ::
  "user \<Rightarrow> string \<Rightarrow> string \<Rightarrow> string \<Rightarrow> int \<Rightarrow> chat_state \<Rightarrow> chat_state" where
  "handleVoiceRecorded u isoNow rnd localUrl duration s =
     (let s0 = s\<lparr>showVoiceRecorder := False\<rparr> in
      case activeChat s0 of
        None \<Rightarrow> s0
      | Some ac \<Rightarrow>
          if \<not> socket s0 then s0
          else
            (let optimisticMsg = voiceOptimisticMsg u ac isoNow (tempIdOf rnd) localUrl duration;
                 s1 = s0\<lparr>messages := messages s0 @ [optimisticMsg]\<rparr>
             in addEffect UploadVoice s1))"

text \<open>
  The continuation after the upload succeeded, with the values the closure captured.
  \<^verbatim>\<open>{ ...m, ...realMsgData }\<close> sets \<^verbatim>\<open>voiceUrl\<close> to the uploaded one even when it is
  undefined, since realMsgData has the property.
\<close>

definition handleVoiceUploaded ::
  "user \<Rightarrow> friend \<Rightarrow> string \<Rightarrow> string \<Rightarrow> string \<Rightarrow> int \<Rightarrow> string option \<Rightarrow>
   chat_state \<Rightarrow> chat_state" where
  "handleVoiceUploaded u ac isoNow tempId localUrl duration dataVoiceUrl s =
     (let optimisticMsg = voiceOptimisticMsg u ac isoNow tempId localUrl duration;
          realMsgData = optimisticMsg\<lparr>voiceUrl := dataVoiceUrl, status := Some Sent\<rparr>;
          s1 = emit (SendMessageEv
                 \<lparr> m_id = None, fromUserId = userId u, toUserId = f_userId ac,
                   content = js ''[Voice]'', messageType = VoiceMsg, imageUrl = None,
                   voiceUrl = dataVoiceUrl, blobUrl = None, voiceDuration = Some duration,
                   timestamp = isoNow, status = None, isRead = None, isRecalled = None,
                   deletedBy = None \<rparr>) s
      in s1\<lparr>messages :=
              map (\<lambda>m. if m_id m = Some tempId
                        then (spread m realMsgData)\<lparr>voiceUrl := dataVoiceUrl\<rparr> else m)
                  (messages s1)\<rparr>)"

definition handleVoiceUploadFailed :: "string \<Rightarrow> chat_state \<Rightarrow> chat_state" where
  "handleVoiceUploadFailed tempId s =
     (let s1 = showToast (Lit ''Voice upload failed'') TError s
      in s1\<lparr>messages :=
              map (\<lambda>m. if m_id m = Some tempId then m\<lparr>status := Some Failed\<rparr> else m)
                  (messages s1)\<rparr>)"

section \<open>Rendering of the log\<close>

text \<open>
  The filter of the message list: \<^verbatim>\<open>!msg.deletedBy?.some(d => d.userId === user.userId)\<close>.
\<close>

definition hiddenFor :: "user \<Rightarrow> message \<Rightarrow> bool" where
  "hiddenFor u msg =
     (case deletedBy msg of None \<Rightarrow> False | Some ds \<Rightarrow> list_ex (\<lambda>d. d_userId d = userId u) ds)"

definition visibleMessages :: "user \<Rightarrow> message list \<Rightarrow> message list" where
  "visibleMessages u log = filter (\<lambda>msg. \<not> hiddenFor u msg) log"

text \<open>
  What MessageBubble returns: for a recalled message the notice with one of two
  translation keys, otherwise the bubble built from the message.
\<close>

datatype bubble = RecalledNotice string | NormalBubble message bool

definition MessageBubble :: "message \<Rightarrow> bool \<Rightarrow> bubble" where
  "MessageBubble message isMe =
     (if isRecalled message = Some True
      then RecalledNotice (if isMe then ''chat.youRecalled'' else ''chat.recalled'')
      else NormalBubble message isMe)"

definition renderLog :: "user \<Rightarrow> message list \<Rightarrow> bubble list" where
  "renderLog u log =
     map (\<lambda>msg. MessageBubble msg (fromUserId msg = userId u)) (visibleMessages u log)"

section \<open>The event loop\<close>

text \<open>
  Every handler runs to completion before the next one. An event is a socket event, a user
  action, the outcome of a request, or the expiry of a timeout.
\<close>

datatype event =
    EvMount
  | EvConnect
  | EvReceiveMessage message
  | EvMessageSent message
  | EvMessageRecalled string
  | EvRecallError "string option"
  | EvMessageDeleted string string string
  | EvMessagesRead string
  | EvNewRequest
  | EvRequestAccepted
  | EvUserTyping string
  | EvUserStopTyping string
  | EvTimer nat
  | EvSelectChat friend bool
  | EvHistoryLoaded friend bool "message list option"
  | EvHistoryFailed
  | EvBackToFriends
  | EvInputChange jsstring
  | EvSendMessage string string
  | EvRecallMessage string
  | EvDeleteMessage string string
  | EvFileUploaded friend "string option" string
  | EvFileUploadFailed
  | EvVoiceRecorded string string string int
  | EvVoiceUploaded friend string string string int "string option"
  | EvVoiceUploadFailed string

fun step :: "(string \<Rightarrow> int option) \<Rightarrow> user \<Rightarrow> nat \<Rightarrow> event \<Rightarrow> chat_state \<Rightarrow> chat_state" where
  "step getTime u now EvMount s = setSocket s"
| "step getTime u now EvConnect s = handleConnect u s"
| "step getTime u now (EvReceiveMessage msg) s = handleReceiveMessage getTime u msg s"
| "step getTime u now (EvMessageSent data) s = handleMessageSent getTime u data s"
| "step getTime u now (EvMessageRecalled messageId) s = handleMessageRecalled messageId s"
| "step getTime u now (EvRecallError message) s = handleRecallError message s"
| "step getTime u now (EvMessageDeleted messageId by at) s = handleMessageDeleted messageId by at s"
| "step getTime u now (EvMessagesRead byUserId) s = handleMessagesRead u byUserId s"
| "step getTime u now EvNewRequest s = handleNewRequest s"
| "step getTime u now EvRequestAccepted s = handleRequestAccepted s"
| "step getTime u now (EvUserTyping from) s = onUserTyping now from s"
| "step getTime u now (EvUserStopTyping from) s = onUserStopTyping from s"
| "step getTime u now (EvTimer h) s = fireTimer now h s"
| "step getTime u now (EvSelectChat friend updateUrl) s = selectChat u friend updateUrl s"
| "step getTime u now (EvHistoryLoaded friend sock dataMessages) s =
     selectChatLoaded u friend sock dataMessages s"
| "step getTime u now EvHistoryFailed s = selectChatFailed s"
| "step getTime u now EvBackToFriends s = handleBackToFriends s"
| "step getTime u now (EvInputChange text) s = handleInputChange u now text s"
| "step getTime u now (EvSendMessage isoNow rnd) s = sendMessage u isoNow rnd s"
| "step getTime u now (EvRecallMessage messageId) s = handleRecallMessage u messageId s"
| "step getTime u now (EvDeleteMessage isoNow messageId) s = handleDeleteMessage u isoNow messageId s"
| "step getTime u now (EvFileUploaded ac dataImageUrl isoNow) s =
     handleFileUploaded u ac dataImageUrl isoNow s"
| "step getTime u now EvFileUploadFailed s = handleFileUploadFailed s"
| "step getTime u now (EvVoiceRecorded isoNow rnd localUrl duration) s =
     handleVoiceRecorded u isoNow rnd localUrl duration s"
| "step getTime u now (EvVoiceUploaded ac isoNow tempId localUrl duration dataVoiceUrl) s =
     handleVoiceUploaded u ac isoNow tempId localUrl duration dataVoiceUrl s"
| "step getTime u now (EvVoiceUploadFailed tempId) s = handleVoiceUploadFailed tempId s"

text \<open>A run: the events in order, each with the time at which its handler runs.\<close>

fun run :: "(string \<Rightarrow> int option) \<Rightarrow> user \<Rightarrow> (nat \<times> event) list \<Rightarrow> chat_state \<Rightarrow> chat_state" where
  "run getTime u [] s = s"
| "run getTime u ((now, ev) # evs) s = run getTime u evs (step getTime u now ev s)"

text \<open>The events that replace the whole log: a conversation switch and its history.\<close>

fun replacesLog :: "event \<Rightarrow> bool" where
  "replacesLog (EvSelectChat friend updateUrl) = True"
| "replacesLog (EvHistoryLoaded friend sock dataMessages) = True"
| "replacesLog ev = False"

text \<open>Classes of events named in the properties below.\<close>

fun isReceive :: "event \<Rightarrow> bool" where
  "isReceive (EvReceiveMessage msg) = True"
| "isReceive ev = False"

fun isUserTyping :: "event \<Rightarrow> bool" where
  "isUserTyping (EvUserTyping from) = True"
| "isUserTyping ev = False"

fun leavesChat :: "event \<Rightarrow> bool" where
  "leavesChat (EvSelectChat friend updateUrl) = True"
| "leavesChat EvBackToFriends = True"
| "leavesChat ev = False"




text \<open>
  The position that the updater of handleReceiveMessage replaces, when it replaces one:
  the first candidate found, if the identity is new, the sender is the local user and
  the candidate is within the time window.
\<close>

definition mergeTarget ::
  "(string \<Rightarrow> int option) \<Rightarrow> user \<Rightarrow> message \<Rightarrow> message list \<Rightarrow> nat option" where
  "mergeTarget getTime u msg prev =
     (if list_ex (\<lambda>m. m_id m = m_id msg) prev then None
      else if fromUserId msg = userId u then
        (case findIndex (optimisticCandidate msg) prev of
           None \<Rightarrow> None
         | Some k \<Rightarrow>
             if within5000 getTime (timestamp (prev ! k)) (timestamp msg) then Some k else None)
      else None)"

text \<open>
  A receive-message event that carries \<^verbatim>\<open>isRecalled: false\<close> and that
  handleReceiveMessage, in the state \<open>s\<close>, merges into the entry at position \<open>i\<close>.
\<close>

fun mergesUnrecalled ::
  "(string \<Rightarrow> int option) \<Rightarrow> user \<Rightarrow> nat \<Rightarrow> event \<Rightarrow> chat_state \<Rightarrow> bool" where
  "mergesUnrecalled getTime u i (EvReceiveMessage msg) s =
     (isRecalled msg = Some False \<and>
      (case activeChat s of
         None \<Rightarrow> False
       | Some ac \<Rightarrow> fromUserId msg = f_userId ac \<or> toUserId msg = f_userId ac) \<and>
      mergeTarget getTime u msg (messages s) = Some i)"
| "mergesUnrecalled getTime u i ev s = False"

text \<open>A run from \<open>s\<close> with no such event for the entry at position \<open>i\<close>.\<close>

fun noUnrecallingMerge ::
  "(string \<Rightarrow> int option) \<Rightarrow> user \<Rightarrow> nat \<Rightarrow> (nat \<times> event) list \<Rightarrow> chat_state \<Rightarrow> bool" where
  "noUnrecallingMerge getTime u i [] s = True"
| "noUnrecallingMerge getTime u i ((now, ev) # evs) s =
     (\<not> mergesUnrecalled getTime u i ev s \<and>
      noUnrecallingMerge getTime u i evs (step getTime u now ev s))"

text \<open>The addressee of a typing or stopTyping event among the effects.\<close>

fun typingTarget :: "effect \<Rightarrow> string option" where
  "typingTarget (Emit (Typing f t)) = Some t"
| "typingTarget (Emit (StopTyping f t)) = Some t"
| "typingTarget e = None"

section \<open>Invariant of the timers\<close>

definition isClear :: "nat \<times> nat \<times> timer_action \<Rightarrow> bool" where
  "isClear tm \<longleftrightarrow> snd (snd tm) = ClearTyping"

text \<open>
  Handles are fresh and distinct; a pending timeout that clears the typing flag is the one
  the receiver ref holds, any other pending timeout is the one the sender ref holds; and
  while the typing flag is shown a clearing timeout is pending.
\<close>

definition timersOK :: "chat_state \<Rightarrow> bool" where
  "timersOK s \<longleftrightarrow>
     list_all (\<lambda>tm. fst tm < nextTimer s) (timers s) \<and>
     (case senderTypingTimeoutRef s of None \<Rightarrow> True | Some h \<Rightarrow> h < nextTimer s) \<and>
     (case receiverTypingTimeoutRef s of None \<Rightarrow> True | Some h \<Rightarrow> h < nextTimer s) \<and>
     distinct (map fst (timers s)) \<and>
     list_all (\<lambda>tm. (isClear tm \<longleftrightarrow> receiverTypingTimeoutRef s = Some (fst tm)) \<and>
                    (\<not> isClear tm \<longleftrightarrow> senderTypingTimeoutRef s = Some (fst tm))) (timers s) \<and>
     (isTyping s \<longrightarrow> list_ex isClear (timers s))"

text \<open>What the invariant reads of a state.\<close>

definition timerView ::
  "chat_state \<Rightarrow> (nat \<times> nat \<times> timer_action) list \<times> nat \<times> nat option \<times> nat option \<times> bool" where
  "timerView s =
     (timers s, nextTimer s, senderTypingTimeoutRef s, receiverTypingTimeoutRef s, isTyping s)"

text \<open>
  The ways in which one handler changes the timers between a state \<open>s\<close> and its result
  \<open>s'\<close>: it cancels the timeout of the receiver ref and clears the flag; it cancels the
  timeout of the sender ref; or it does so and arms a new timeout in its place.
\<close>

definition cancelsReceiver :: "chat_state \<Rightarrow> chat_state \<Rightarrow> bool" where
  "cancelsReceiver s s' \<longleftrightarrow>
     timers s' = filter (\<lambda>tm. Some (fst tm) \<noteq> receiverTypingTimeoutRef s) (timers s) \<and>
     nextTimer s' = nextTimer s \<and>
     senderTypingTimeoutRef s' = senderTypingTimeoutRef s \<and>
     receiverTypingTimeoutRef s' = receiverTypingTimeoutRef s \<and>
     \<not> isTyping s'"

definition cancelsSender :: "chat_state \<Rightarrow> chat_state \<Rightarrow> bool" where
  "cancelsSender s s' \<longleftrightarrow>
     timers s' = filter (\<lambda>tm. Some (fst tm) \<noteq> senderTypingTimeoutRef s) (timers s) \<and>
     nextTimer s' = nextTimer s \<and>
     senderTypingTimeoutRef s' = senderTypingTimeoutRef s \<and>
     receiverTypingTimeoutRef s' = receiverTypingTimeoutRef s \<and>
     isTyping s' = isTyping s"

definition armsReceiver :: "nat \<Rightarrow> chat_state \<Rightarrow> chat_state \<Rightarrow> bool" where
  "armsReceiver due s s' \<longleftrightarrow>
     timers s' = filter (\<lambda>tm. Some (fst tm) \<noteq> receiverTypingTimeoutRef s) (timers s)
                 @ [(nextTimer s, due, ClearTyping)] \<and>
     nextTimer s' = Suc (nextTimer s) \<and>
     senderTypingTimeoutRef s' = senderTypingTimeoutRef s \<and>
     receiverTypingTimeoutRef s' = Some (nextTimer s) \<and>
     isTyping s'"

definition armsSender :: "nat \<Rightarrow> string \<Rightarrow> string \<Rightarrow> chat_state \<Rightarrow> chat_state \<Rightarrow> bool" where
  "armsSender due f t s s' \<longleftrightarrow>
     timers s' = filter (\<lambda>tm. Some (fst tm) \<noteq> senderTypingTimeoutRef s) (timers s)
                 @ [(nextTimer s, due, EmitStopTyping f t)] \<and>
     nextTimer s' = Suc (nextTimer s) \<and>
     senderTypingTimeoutRef s' = Some (nextTimer s) \<and>
     receiverTypingTimeoutRef s' = receiverTypingTimeoutRef s \<and>
     isTyping s' = isTyping s"


text \<open>
  Every pending stopTyping timeout is addressed to the peer \<open>b\<close>, who is the active
  conversation.
\<close>

definition addressedTo :: "friend \<Rightarrow> chat_state \<Rightarrow> bool" where
  "addressedTo b s \<longleftrightarrow>
     activeChat s = Some b \<and>
     list_all (\<lambda>tm. case snd (snd tm) of
                      ClearTyping \<Rightarrow> True
                    | EmitStopTyping f t \<Rightarrow> t = f_userId b) (timers s)"

text \<open>Effects among which every typing or stopTyping event is addressed to the peer \<open>b\<close>.\<close>

definition typingOnlyTo :: "friend \<Rightarrow> effect list \<Rightarrow> bool" where
  "typingOnlyTo b new \<longleftrightarrow>
     list_all (\<lambda>e. typingTarget e = None \<or> typingTarget e = Some (f_userId b)) new"

section \<open>Example data\<close>

text \<open>
  The instants \<^verbatim>\<open>new Date(s).getTime()\<close> gives for the timestamps of the examples
  below (milliseconds since the epoch); the examples use no other timestamp.
\<close>

definition exampleGetTime :: "string \<Rightarrow> int option" where
  "exampleGetTime t =
     (if t = ''2024-01-01T00:00:00.000Z'' then Some 1704067200000
      else if t = ''2024-01-01T00:00:00.200Z'' then Some 1704067200200
      else if t = ''2024-01-01T00:00:01.000Z'' then Some 1704067201000
      else if t = ''2024-01-01T00:00:10.000Z'' then Some 1704067210000
      else None)"

definition me :: user where
  "me = \<lparr> userId = ''u1'', username = ''ann'', avatar = None, token = None \<rparr>"

definition peerA :: friend where
  "peerA = \<lparr> f_userId = ''u2'', f_username = ''bob'', f_avatar = None, unreadCount = None,
             lastMessage = None \<rparr>"

definition peerB :: friend where
  "peerB = \<lparr> f_userId = ''u3'', f_username = ''cat'', f_avatar = None, unreadCount = None,
             lastMessage = None \<rparr>"

text \<open>A text message from the local user to peer A.\<close>

definition textMsg :: "string option \<Rightarrow> jsstring \<Rightarrow> string \<Rightarrow> delivery_status option \<Rightarrow> message" where
  "textMsg i c t st =
     \<lparr> m_id = i, fromUserId = ''u1'', toUserId = ''u2'', content = c, messageType = TextMsg,
       imageUrl = None, voiceUrl = None, blobUrl = None, voiceDuration = None, timestamp = t,
       status = st, isRead = None, isRecalled = None, deletedBy = None \<rparr>"

definition placeholder1 :: message where
  "placeholder1 = textMsg (Some ''x7f3a2b1c'') (js ''hi'') ''2024-01-01T00:00:00.000Z'' (Some Sent)"

definition placeholder2 :: message where
  "placeholder2 = textMsg (Some ''k2m9q0zzp'') (js ''hi'') ''2024-01-01T00:00:01.000Z'' (Some Sent)"

definition echo :: message where
  "echo = textMsg (Some ''65a1b2c3d4e5f60718293a4b'') (js ''hi'') ''2024-01-01T00:00:00.200Z'' None"

text \<open>
  A placeholder sent ten seconds after \<open>placeholder1\<close> with the same text, and the echo of
  the server for it.
\<close>

definition latePlaceholder :: message where
  "latePlaceholder = textMsg (Some ''k2m9q0zzp'') (js ''hi'') ''2024-01-01T00:00:10.000Z'' (Some Sent)"

definition lateEcho :: message where
  "lateEcho = textMsg (Some ''65a1b2c3d4e5f60718293a4c'') (js ''hi'') ''2024-01-01T00:00:10.000Z'' None"

definition connected :: chat_state where
  "connected = initialState\<lparr>socket := True, activeChat := Some peerA\<rparr>"

text \<open>The component is mounted and the conversation with peer A is opened.\<close>

definition openingEvents :: "(nat \<times> event) list" where
  "openingEvents = [(0, EvMount), (10, EvSelectChat peerA False), (20, EvHistoryLoaded peerA True None)]"


text \<open>Then peer A is typing and the local user types one character.\<close>

definition chatting :: chat_state where
  "chatting = run exampleGetTime me (openingEvents @ [(30, EvUserTyping ''u2''), (100, EvInputChange (js ''h''))])
                initialState"

section \<open>Properties of the matcher\<close>

subsection \<open>findIndex\<close>


lemma findIndex_Some:
  "findIndex P xs = Some i \<Longrightarrow> i < length xs \<and> P (xs ! i) \<and> (\<forall>j<i. \<not> P (xs ! j))"
proof (induction xs arbitrary: i)
  case Nil
  then show ?case by simp
next
  case (Cons x xs)
  show ?case
  proof (cases "P x")
    case True
    with Cons.prems show ?thesis by simp
  next
    case False
    with Cons.prems obtain k where k: "findIndex P xs = Some k" "i = Suc k"
      by auto
    from Cons.IH[OF k(1)] False k(2) show ?thesis
      by (auto simp: nth_Cons split: nat.splits)
  qed
qed


subsection \<open>The send-confirmation handler\<close>

lemmas example_defs =
  exampleGetTime_def me_def peerA_def peerB_def textMsg_def placeholder1_def placeholder2_def
  latePlaceholder_def lateEcho_def
  echo_def connected_def initialState_def

text \<open>
  Claim C10. For every log and every send-confirmation, handleMessageSent returns a log of
  the same length; the entry at a position is rewritten (identity, timestamp and status
  sent) exactly when its sender is the local user, its content equals the confirmation's,
  its identity is shorter than 20 characters and its timestamp is less than 5000 ms from
  the confirmation's; every other entry is returned as it was.
\<close>

theorem handleMessageSent_frame:
  "length (messages (handleMessageSent getTime u data s)) = length (messages s) \<and>
   (\<forall>i < length (messages s).
      messages (handleMessageSent getTime u data s) ! i =
        (if fromUserId (messages s ! i) = userId u \<and>
            content (messages s ! i) = content data \<and>
            idLength (messages s ! i) < 20 \<and>
            within5000 getTime (timestamp data) (timestamp (messages s ! i))
         then (messages s ! i)\<lparr>m_id := m_id data, timestamp := timestamp data, status := Some Sent\<rparr>
         else messages s ! i))"
  by (simp add: handleMessageSent_def sentUpdater_def sentMatches_def)

text \<open>The frame property at a log of a matching placeholder and an entry with a durable identity.\<close>

theorem handleMessageSent_frame_witness:
  "length (messages (handleMessageSent exampleGetTime me echo
      (connected\<lparr>messages := [placeholder1, echo]\<rparr>))) = 2 \<and>
   messages (handleMessageSent exampleGetTime me echo
      (connected\<lparr>messages := [placeholder1, echo]\<rparr>)) ! 0 =
     placeholder1\<lparr>m_id := m_id echo, timestamp := timestamp echo, status := Some Sent\<rparr> \<and>
   messages (handleMessageSent exampleGetTime me echo
      (connected\<lparr>messages := [placeholder1, echo]\<rparr>)) ! 1 = echo"
  using handleMessageSent_frame [of exampleGetTime me echo "connected\<lparr>messages := [placeholder1, echo]\<rparr>"]
  by (simp add: example_defs idLength_def within5000_def)

subsection \<open>The receive-message merge\<close>




text \<open>
  The logs left out above. A placeholder that is outside the window stands before the one
  the echo belongs to: findIndex stops at the first, the time test fails there, and the
  echo is appended beside its own placeholder, where the send-confirmation handler, which
  tests the time of every entry, rewrites that placeholder.
\<close>

lemma receive_stale_candidate_blocks_merge:
  "receiveUpdater exampleGetTime me lateEcho [placeholder1, latePlaceholder] =
     [placeholder1, latePlaceholder, lateEcho] \<and>
   sentUpdater exampleGetTime me lateEcho [placeholder1, latePlaceholder] =
     [placeholder1,
      latePlaceholder\<lparr>m_id := m_id lateEcho, timestamp := timestamp lateEcho, status := Some Sent\<rparr>]"
  by (simp add: example_defs idLength_def within5000_def receiveUpdater_def
      optimisticCandidate_def sentUpdater_def sentMatches_def)

text \<open>
  Claim C2, at a failing input. Two placeholders with the same text, sent one second apart,
  and one send-confirmation within 5000 ms of both: handleMessageSent maps over the whole
  log and gives both entries the one durable identity of the confirmation, where
  handleReceiveMessage on the same log replaces only the first.
\<close>

theorem messageSent_rewrites_both_placeholders:
  "map m_id (messages (handleMessageSent exampleGetTime me echo
       (connected\<lparr>messages := [placeholder1, placeholder2]\<rparr>))) =
     [Some ''65a1b2c3d4e5f60718293a4b'', Some ''65a1b2c3d4e5f60718293a4b'']"
  by (simp add: example_defs idLength_def within5000_def handleMessageSent_def sentUpdater_def
      sentMatches_def)

subsection \<open>Re-delivery\<close>

lemma receiveUpdater_has_id:
  "list_ex (\<lambda>m. m_id m = m_id msg) (receiveUpdater getTime u msg prev)"
proof (cases "list_ex (\<lambda>m. m_id m = m_id msg) prev")
  case True
  then show ?thesis by (simp add: receiveUpdater_def)
next
  case False
  show ?thesis
  proof (cases "findIndex (optimisticCandidate msg) prev")
    case None
    with False show ?thesis by (simp add: receiveUpdater_def list_ex_iff)
  next
    case (Some i)
    then have "i < length prev" by (simp add: findIndex_Some)
    then have "(spread (prev ! i) msg)\<lparr>status := Some Sent, m_id := m_id msg\<rparr>
                 \<in> set (prev[i := (spread (prev ! i) msg)\<lparr>status := Some Sent, m_id := m_id msg\<rparr>])"
      by (simp add: set_update_memI)
    then have "list_ex (\<lambda>m. m_id m = m_id msg)
                 (prev[i := (spread (prev ! i) msg)\<lparr>status := Some Sent, m_id := m_id msg\<rparr>])"
      unfolding list_ex_iff by (rule rev_bexI) simp
    with False Some show ?thesis
      by (simp add: receiveUpdater_def Let_def list_ex_iff)
  qed
qed

lemma handleReceiveMessage_messages:
  "messages (handleReceiveMessage getTime u msg s) =
     (case activeChat s of
        None \<Rightarrow> messages s
      | Some ac \<Rightarrow> if fromUserId msg = f_userId ac \<or> toUserId msg = f_userId ac
                   then receiveUpdater getTime u msg (messages s) else messages s)"
  by (simp add: handleReceiveMessage_def addEffect_def emit_def clearRef_def clearTimeout_def
      Let_def split: option.splits)

lemma handleReceiveMessage_activeChat:
  "activeChat (handleReceiveMessage getTime u msg s) = activeChat s"
  by (simp add: handleReceiveMessage_def addEffect_def emit_def clearRef_def clearTimeout_def
      Let_def split: option.splits)

text \<open>
  The receive path absorbs a re-delivery. If an entry with the identity of the incoming
  message is already in the log, handleReceiveMessage returns the log unchanged; and after
  one application such an entry is there, so the second application of the same event
  changes neither the log nor its length.
\<close>

theorem handleReceiveMessage_idempotent:
  "((\<exists>m \<in> set (messages s). m_id m = m_id msg) \<longrightarrow>
      messages (handleReceiveMessage getTime u msg s) = messages s) \<and>
   messages (handleReceiveMessage getTime u msg (handleReceiveMessage getTime u msg s)) =
     messages (handleReceiveMessage getTime u msg s) \<and>
   length (messages (handleReceiveMessage getTime u msg (handleReceiveMessage getTime u msg s))) =
     length (messages (handleReceiveMessage getTime u msg s))"
proof -
  have dup: "\<And>prev. list_ex (\<lambda>m. m_id m = m_id msg) prev \<Longrightarrow>
               receiveUpdater getTime u msg prev = prev"
    by (simp add: receiveUpdater_def)
  have a: "(\<exists>m \<in> set (messages s). m_id m = m_id msg) \<longrightarrow>
             messages (handleReceiveMessage getTime u msg s) = messages s"
    by (auto simp: handleReceiveMessage_messages dup list_ex_iff split: option.splits)
  have b: "messages (handleReceiveMessage getTime u msg (handleReceiveMessage getTime u msg s)) =
             messages (handleReceiveMessage getTime u msg s)"
    by (simp add: handleReceiveMessage_messages [of _ _ _ "handleReceiveMessage getTime u msg s"]
         handleReceiveMessage_activeChat)
       (simp add: handleReceiveMessage_messages dup receiveUpdater_has_id split: option.splits)
  from a b show ?thesis by simp
qed

text \<open>Re-delivery of a message that the log already holds.\<close>

theorem handleReceiveMessage_idempotent_witness:
  "(\<exists>m \<in> set (messages (connected\<lparr>messages := [echo]\<rparr>)). m_id m = m_id echo) \<and>
   messages (handleReceiveMessage exampleGetTime me echo (connected\<lparr>messages := [echo]\<rparr>)) = [echo]"
  using handleReceiveMessage_idempotent [of "connected\<lparr>messages := [echo]\<rparr>" echo exampleGetTime me]
  by simp

text \<open>
  Claim C3, at a failing input. The log holds a placeholder and, after it, an entry with
  the durable identity of the incoming event. As a send-confirmation the event is not
  absorbed: handleMessageSent has no test for an identity that is already there, and
  rewrites the placeholder, so that two entries have the one identity; as a
  receive-message the same event leaves the same log unchanged. Such a log arises when
  the text ``hi'' is sent twice within a second and the server answers the first with a
  receive-message, which is merged into the first placeholder, and then with the
  send-confirmation of the same message, which is written over the second placeholder.
\<close>

theorem messageSent_ignores_existing_identity:
  "m_id ([placeholder1, echo] ! 1) = m_id echo \<and>
   20 \<le> idLength echo \<and>
   messages (handleMessageSent exampleGetTime me echo
      (connected\<lparr>messages := [placeholder1, echo]\<rparr>)) =
     [placeholder1\<lparr>m_id := m_id echo, timestamp := timestamp echo, status := Some Sent\<rparr>, echo] \<and>
   map m_id (messages (handleMessageSent exampleGetTime me echo
      (connected\<lparr>messages := [placeholder1, echo]\<rparr>))) =
     [Some ''65a1b2c3d4e5f60718293a4b'', Some ''65a1b2c3d4e5f60718293a4b''] \<and>
   messages (handleReceiveMessage exampleGetTime me echo
      (connected\<lparr>messages := [placeholder1, echo]\<rparr>)) = [placeholder1, echo] \<and>
   map m_id (messages (handleReceiveMessage exampleGetTime me echo
      (connected\<lparr>messages := [placeholder1, placeholder2]\<rparr>))) =
     [Some ''65a1b2c3d4e5f60718293a4b'', Some ''k2m9q0zzp''] \<and>
   map m_id (messages (handleMessageSent exampleGetTime me echo
      (handleReceiveMessage exampleGetTime me echo
         (connected\<lparr>messages := [placeholder1, placeholder2]\<rparr>)))) =
     [Some ''65a1b2c3d4e5f60718293a4b'', Some ''65a1b2c3d4e5f60718293a4b'']"
  by (simp add: example_defs idLength_def within5000_def handleMessageSent_def sentUpdater_def
      sentMatches_def handleReceiveMessage_messages receiveUpdater_def optimisticCandidate_def
      spread_def orElse_def)

section \<open>Recall and delete before the server confirmed\<close>

lemma emitted_addEffect:
  "emitted (addEffect e s) = emitted s @ (case e of Emit ev \<Rightarrow> [ev] | _ \<Rightarrow> [])"
  by (simp add: emitted_def addEffect_def)

text \<open>
  Claim C4, as amended. For every identity shorter than 20 characters, handleRecallMessage
  and handleDeleteMessage leave the log unchanged and emit nothing on the socket; when the
  socket is there and the identity is not empty, the only effect is the still-syncing
  notice.
\<close>

theorem placeholder_recall_delete_rejected:
  assumes "length messageId < 20"
  shows "messages (handleRecallMessage u messageId s) = messages s \<and>
         emitted (handleRecallMessage u messageId s) = emitted s \<and>
         messages (handleDeleteMessage u isoNow messageId s) = messages s \<and>
         emitted (handleDeleteMessage u isoNow messageId s) = emitted s \<and>
         (socket s \<and> messageId \<noteq> [] \<longrightarrow>
            effects (handleRecallMessage u messageId s) =
              effects s @ [ShowToast (Lit ''Syncing message, please try again...'') TInfo] \<and>
            effects (handleDeleteMessage u isoNow messageId s) =
              effects s @ [ShowToast (Lit ''Syncing message, please try again...'') TInfo])"
  using assms
  by (simp add: handleRecallMessage_def handleDeleteMessage_def showToast_def emitted_addEffect)
     (simp add: addEffect_def)

text \<open>Recall of the placeholder identity of nine characters.\<close>

theorem placeholder_recall_delete_rejected_witness:
  "length ''x7f3a2b1c'' < 20 \<and> socket connected \<and> ''x7f3a2b1c'' \<noteq> [] \<and>
   messages (handleRecallMessage me ''x7f3a2b1c'' connected) = messages connected \<and>
   emitted (handleRecallMessage me ''x7f3a2b1c'' connected) = emitted connected \<and>
   effects (handleRecallMessage me ''x7f3a2b1c'' connected) =
     [ShowToast (Lit ''Syncing message, please try again...'') TInfo]"
  using placeholder_recall_delete_rejected [of "''x7f3a2b1c''" me connected "''t''"]
  by (simp add: connected_def initialState_def)

text \<open>
  Claim C4 as stated fails at the empty identity, which the first guard of both handlers
  catches: neither handler shows the still-syncing notice (delete shows nothing, recall
  shows the action-failed notice).
\<close>

theorem empty_identity_no_notice_counterexample:
  "length ('''' :: string) < 20 \<and>
   ShowToast (Lit ''Syncing message, please try again...'') TInfo
     \<notin> set (effects (handleDeleteMessage me ''2024-01-01T00:00:00.000Z'' '''' connected)) \<and>
   ShowToast (Lit ''Syncing message, please try again...'') TInfo
     \<notin> set (effects (handleRecallMessage me '''' connected))"
  by (simp add: handleDeleteMessage_def handleRecallMessage_def showToast_def addEffect_def
      connected_def initialState_def)

section \<open>What each handler does to the log\<close>

lemmas effect_defs = addEffect_def emit_def showToast_def clearRef_def clearTimeout_def
  setTimeout_def runCallback_def

text \<open>All handlers, for evaluating a run on concrete events.\<close>

lemmas handler_defs =
  setSocket_def handleConnect_def handleReceiveMessage_def handleMessageSent_def
  handleMessageRecalled_def handleMessageDeleted_def handleRecallError_def handleNewRequest_def
  handleRequestAccepted_def handleMessagesRead_def onUserTyping_def onUserStopTyping_def
  fireTimer_def selectChat_def selectChatLoaded_def selectChatFailed_def handleBackToFriends_def
  handleInputChange_def sendMessage_def handleRecallMessage_def handleDeleteMessage_def
  handleFileUploaded_def handleFileUploadFailed_def handleVoiceRecorded_def
  handleVoiceUploaded_def handleVoiceUploadFailed_def

lemma messages_simple [simp]:
  "messages (setSocket s) = messages s"
  "messages (handleConnect u s) = messages s"
  "messages (handleRecallError message s) = messages s"
  "messages (handleNewRequest s) = messages s"
  "messages (handleRequestAccepted s) = messages s"
  "messages (onUserTyping now from s) = messages s"
  "messages (onUserStopTyping from s) = messages s"
  "messages (selectChatFailed s) = messages s"
  "messages (handleBackToFriends s) = messages s"
  "messages (handleInputChange u now text s) = messages s"
  "messages (handleFileUploadFailed s) = messages s"
  by (simp_all add: setSocket_def handleConnect_def handleRecallError_def handleNewRequest_def
      handleRequestAccepted_def onUserTyping_def onUserStopTyping_def selectChatFailed_def
      handleBackToFriends_def handleInputChange_def handleFileUploadFailed_def effect_defs
      Let_def split: option.splits)

lemma messages_fireTimer [simp]: "messages (fireTimer now h s) = messages s"
  by (simp add: fireTimer_def effect_defs split: option.splits prod.splits timer_action.splits)

lemma messages_handleMessageSent [simp]:
  "messages (handleMessageSent getTime u data s) = sentUpdater getTime u data (messages s)"
  by (simp add: handleMessageSent_def)

lemma messages_handleMessageRecalled [simp]:
  "messages (handleMessageRecalled messageId s) = recallUpdater messageId (messages s)"
  by (simp add: handleMessageRecalled_def effect_defs)

lemma messages_handleMessageDeleted [simp]:
  "messages (handleMessageDeleted messageId by at s) =
     deleteUpdater messageId \<lparr>d_userId = by, deletedAt = at\<rparr> (messages s)"
  by (simp add: handleMessageDeleted_def)

lemma messages_handleMessagesRead:
  "messages (handleMessagesRead u byUserId s) =
     (case activeChat s of
        None \<Rightarrow> messages s
      | Some ac \<Rightarrow> if f_userId ac = byUserId then readUpdater u (messages s) else messages s)"
  by (simp add: handleMessagesRead_def split: option.splits)

lemma messages_sendMessage:
  "messages (sendMessage u isoNow rnd s) =
     (case activeChat s of
        None \<Rightarrow> messages s
      | Some ac \<Rightarrow>
          if trim (inputText s) = [] \<or> \<not> socket s then messages s
          else messages s @
            [\<lparr> m_id = Some (tempIdOf rnd), fromUserId = userId u, toUserId = f_userId ac,
               content = inputText s, messageType = TextMsg, imageUrl = None, voiceUrl = None,
               blobUrl = None, voiceDuration = None, timestamp = isoNow, status = Some Sent,
               isRead = None, isRecalled = None, deletedBy = None \<rparr>])"
  by (simp add: sendMessage_def effect_defs Let_def split: option.splits)

lemma messages_handleRecallMessage:
  "messages (handleRecallMessage u messageId s) =
     (if \<not> socket s \<or> messageId = [] \<or> length messageId < 20 then messages s
      else recallUpdater messageId (messages s))"
  by (simp add: handleRecallMessage_def effect_defs Let_def)

lemma messages_handleDeleteMessage:
  "messages (handleDeleteMessage u isoNow messageId s) =
     (if \<not> socket s \<or> messageId = [] \<or> length messageId < 20 then messages s
      else deleteUpdater messageId \<lparr>d_userId = userId u, deletedAt = isoNow\<rparr> (messages s))"
  by (simp add: handleDeleteMessage_def effect_defs Let_def)

lemma messages_handleFileUploaded:
  "messages (handleFileUploaded u ac dataImageUrl isoNow s) =
     messages s @
       [\<lparr> m_id = None, fromUserId = userId u, toUserId = f_userId ac, content = js ''[Image]'',
          messageType = ImageMsg, imageUrl = dataImageUrl, voiceUrl = None, blobUrl = None,
          voiceDuration = None, timestamp = isoNow, status = Some Sent, isRead = None,
          isRecalled = None, deletedBy = None \<rparr>]"
  by (simp add: handleFileUploaded_def effect_defs Let_def)

lemma messages_handleVoiceRecorded:
  "messages (handleVoiceRecorded u isoNow rnd localUrl duration s) =
     (case activeChat s of
        None \<Rightarrow> messages s
      | Some ac \<Rightarrow>
          if \<not> socket s then messages s
          else messages s @ [voiceOptimisticMsg u ac isoNow (tempIdOf rnd) localUrl duration])"
  by (simp add: handleVoiceRecorded_def effect_defs Let_def split: option.splits)

lemma messages_handleVoiceUploaded:
  "messages (handleVoiceUploaded u ac isoNow tempId localUrl duration dataVoiceUrl s) =
     map (\<lambda>m. if m_id m = Some tempId
               then (spread m ((voiceOptimisticMsg u ac isoNow tempId localUrl duration)
                       \<lparr>voiceUrl := dataVoiceUrl, status := Some Sent\<rparr>))\<lparr>voiceUrl := dataVoiceUrl\<rparr>
               else m) (messages s)"
  by (simp add: handleVoiceUploaded_def effect_defs Let_def)

lemma messages_handleVoiceUploadFailed:
  "messages (handleVoiceUploadFailed tempId s) =
     map (\<lambda>m. if m_id m = Some tempId then m\<lparr>status := Some Failed\<rparr> else m) (messages s)"
  by (simp add: handleVoiceUploadFailed_def effect_defs Let_def)

subsection \<open>Identities change only by a merge\<close>

lemma length_tempIdOf: "length (tempIdOf rnd) \<le> 9"
  by (simp add: tempIdOf_def)

lemma map_m_id_updaters:
  "map m_id (recallUpdater messageId prev) = map m_id prev"
  "map m_id (deleteUpdater messageId d prev) = map m_id prev"
  "map m_id (readUpdater u prev) = map m_id prev"
  by (simp_all add: recallUpdater_def deleteUpdater_def readUpdater_def appendDeletion_def)

lemma length_updaters [simp]:
  "length (sentUpdater getTime u data prev) = length prev"
  "length (recallUpdater messageId prev) = length prev"
  "length (deleteUpdater messageId d prev) = length prev"
  "length (readUpdater u prev) = length prev"
  by (simp_all add: sentUpdater_def recallUpdater_def deleteUpdater_def readUpdater_def)

lemma map_m_id_voice:
  "map m_id (map (\<lambda>m. if m_id m = Some tempId
               then (spread m ((voiceOptimisticMsg u ac isoNow tempId localUrl duration)
                       \<lparr>voiceUrl := dataVoiceUrl, status := Some Sent\<rparr>))\<lparr>voiceUrl := dataVoiceUrl\<rparr>
               else m) prev) = map m_id prev"
  by (induction prev) (simp_all add: spread_def orElse_def voiceOptimisticMsg_def)

lemma map_m_id_failed:
  "map m_id (map (\<lambda>m. if m_id m = Some tempId then m\<lparr>status := Some Failed\<rparr> else m) prev) =
     map m_id prev"
  by (induction prev) simp_all

lemma step_keeps_identities:
  assumes "\<not> replacesLog ev" "\<forall>msg. ev \<noteq> EvReceiveMessage msg" "\<forall>data. ev \<noteq> EvMessageSent data"
  shows "map m_id (take (length (messages s)) (messages (step getTime u now ev s))) =
           map m_id (messages s)"
proof (cases ev)
  case (EvMessagesRead x)
  then show ?thesis
    by (simp add: messages_handleMessagesRead map_m_id_updaters split: option.splits)
next
  case (EvSendMessage x y)
  then show ?thesis by (simp add: messages_sendMessage split: option.splits)
next
  case (EvRecallMessage x)
  then show ?thesis by (simp add: messages_handleRecallMessage map_m_id_updaters)
next
  case (EvDeleteMessage x y)
  then show ?thesis by (simp add: messages_handleDeleteMessage map_m_id_updaters)
next
  case (EvFileUploaded x y z)
  then show ?thesis by (simp add: messages_handleFileUploaded)
next
  case (EvVoiceRecorded a b c d)
  then show ?thesis by (simp add: messages_handleVoiceRecorded split: option.splits)
next
  case (EvVoiceUploaded a b c d e f)
  then show ?thesis by (simp only: step.simps messages_handleVoiceUploaded map_m_id_voice take_map length_map take_all order_refl)
next
  case (EvVoiceUploadFailed x)
  then show ?thesis by (simp only: step.simps messages_handleVoiceUploadFailed map_m_id_failed take_map length_map take_all order_refl)
next
  case (EvMessageRecalled x)
  then show ?thesis by (simp add: map_m_id_updaters)
next
  case (EvMessageDeleted x y z)
  then show ?thesis by (simp add: map_m_id_updaters)
qed (use assms in simp_all)

subsection \<open>Lifecycle of a locally created record\<close>

lemma receiveUpdater_changed_is_sent:
  assumes "i < length prev" "receiveUpdater getTime u msg prev ! i \<noteq> prev ! i"
  shows "status (receiveUpdater getTime u msg prev ! i) = Some Sent \<and>
         m_id (receiveUpdater getTime u msg prev ! i) = m_id msg \<and> idLength (prev ! i) < 20"
proof (cases "findIndex (optimisticCandidate msg) prev")
  case None
  with assms show ?thesis
    by (simp add: receiveUpdater_def nth_append split: if_splits)
next
  case (Some k)
  then have k: "k < length prev" "optimisticCandidate msg (prev ! k)"
    by (simp_all add: findIndex_Some)
  show ?thesis
  proof (cases "i = k")
    case True
    with assms Some k show ?thesis
      by (auto simp: receiveUpdater_def nth_append Let_def optimisticCandidate_def split: if_splits)
  next
    case False
    with assms Some show ?thesis
      by (simp add: receiveUpdater_def nth_append Let_def split: if_splits)
  qed
qed

lemma sentUpdater_changed_is_sent:
  assumes "i < length prev" "sentUpdater getTime u data prev ! i \<noteq> prev ! i"
  shows "status (sentUpdater getTime u data prev ! i) = Some Sent \<and>
         m_id (sentUpdater getTime u data prev ! i) = m_id data \<and> idLength (prev ! i) < 20"
  using assms by (simp add: sentUpdater_def sentMatches_def split: if_splits)

lemma emitted_sendMessage:
  assumes "activeChat s = Some ac" "socket s" "trim (inputText s) \<noteq> []"
  shows "emitted (sendMessage u isoNow rnd s) =
           emitted s @
           [StopTyping (userId u) (f_userId ac),
            SendMessageEv
              \<lparr> m_id = Some (tempIdOf rnd), fromUserId = userId u, toUserId = f_userId ac,
                content = inputText s, messageType = TextMsg, imageUrl = None, voiceUrl = None,
                blobUrl = None, voiceDuration = None, timestamp = isoNow, status = Some Sent,
                isRead = None, isRecalled = None, deletedBy = None \<rparr>]"
  using assms
  by (simp add: sendMessage_def emitted_def effect_defs Let_def split: option.splits)

lemma emitted_handleFileUploaded:
  "emitted (handleFileUploaded u ac dataImageUrl isoNow s) =
     emitted s @
     [SendMessageEv
        \<lparr> m_id = None, fromUserId = userId u, toUserId = f_userId ac, content = js ''[Image]'',
          messageType = ImageMsg, imageUrl = dataImageUrl, voiceUrl = None, blobUrl = None,
          voiceDuration = None, timestamp = isoNow, status = Some Sent, isRead = None,
          isRecalled = None, deletedBy = None \<rparr>]"
  by (simp add: handleFileUploaded_def emitted_def effect_defs Let_def)

lemma emitted_voice:
  "emitted (handleVoiceRecorded u isoNow rnd localUrl duration s) = emitted s"
  "emitted (handleVoiceUploaded u ac isoNow tempId localUrl duration dataVoiceUrl s) =
     emitted s @
     [SendMessageEv
        \<lparr> m_id = None, fromUserId = userId u, toUserId = f_userId ac, content = js ''[Voice]'',
          messageType = VoiceMsg, imageUrl = None, voiceUrl = dataVoiceUrl, blobUrl = None,
          voiceDuration = Some duration, timestamp = isoNow, status = None, isRead = None,
          isRecalled = None, deletedBy = None \<rparr>]"
  "emitted (handleVoiceUploadFailed tempId s) = emitted s"
  by (simp_all add: handleVoiceRecorded_def handleVoiceUploaded_def handleVoiceUploadFailed_def
      emitted_def effect_defs Let_def split: option.splits)

text \<open>
  Claim C5, as amended. With a conversation active and the socket there: sendMessage, when
  the trimmed input is not empty, appends a text record with a placeholder identity of at
  most 9 characters and status sent, and emits it on the socket in the same handler; an
  uploaded image is appended with no identity and status sent, and emitted in the same
  handler; a voice record is appended with a placeholder identity of at most 9 characters
  and status sending, and nothing is emitted yet; when its upload succeeds the message is
  emitted and the record gets status sent, when it fails nothing is emitted and the
  record gets status error, the identity staying the placeholder in both cases. No
  handler other than the two merges (receive-message and send-confirmation) and the log
  replacement of a conversation switch changes the identity of an entry, and an entry
  whose identity a merge changes has status sent afterwards.
\<close>

theorem local_record_lifecycle:
  assumes "activeChat s = Some ac" and "socket s"
  shows "(trim (inputText s) \<noteq> [] \<longrightarrow>
            (\<exists>m. messages (sendMessage u isoNow rnd s) = messages s @ [m] \<and>
                 m_id m = Some (tempIdOf rnd) \<and> length (tempIdOf rnd) \<le> 9 \<and>
                 status m = Some Sent \<and>
                 emitted (sendMessage u isoNow rnd s) =
                   emitted s @ [StopTyping (userId u) (f_userId ac), SendMessageEv m])) \<and>
         (\<exists>m. messages (handleFileUploaded u ac dataImageUrl isoNow s) = messages s @ [m] \<and>
              m_id m = None \<and> status m = Some Sent \<and>
              emitted (handleFileUploaded u ac dataImageUrl isoNow s) =
                emitted s @ [SendMessageEv m]) \<and>
         (\<exists>m. messages (handleVoiceRecorded u isoNow rnd localUrl duration s) = messages s @ [m] \<and>
              m_id m = Some (tempIdOf rnd) \<and> length (tempIdOf rnd) \<le> 9 \<and>
              status m = Some Sending \<and>
              emitted (handleVoiceRecorded u isoNow rnd localUrl duration s) = emitted s) \<and>
         (\<exists>payload.
            emitted (handleVoiceUploaded u ac isoNow tempId localUrl duration dataVoiceUrl s) =
              emitted s @ [SendMessageEv payload]) \<and>
         emitted (handleVoiceUploadFailed tempId s) = emitted s \<and>
         (\<forall>i < length (messages s). m_id (messages s ! i) = Some tempId \<longrightarrow>
            status (messages (handleVoiceUploaded u ac isoNow tempId localUrl duration dataVoiceUrl s) ! i)
              = Some Sent \<and>
            m_id (messages (handleVoiceUploaded u ac isoNow tempId localUrl duration dataVoiceUrl s) ! i)
              = Some tempId \<and>
            status (messages (handleVoiceUploadFailed tempId s) ! i) = Some Failed \<and>
            m_id (messages (handleVoiceUploadFailed tempId s) ! i) = Some tempId) \<and>
         (\<forall>ev. \<not> replacesLog ev \<and> (\<forall>msg. ev \<noteq> EvReceiveMessage msg) \<and>
               (\<forall>data. ev \<noteq> EvMessageSent data) \<longrightarrow>
            map m_id (take (length (messages s)) (messages (step getTime u now ev s))) =
              map m_id (messages s)) \<and>
         (\<forall>i < length (messages s).
            (m_id (messages (handleReceiveMessage getTime u msg s) ! i) \<noteq> m_id (messages s ! i) \<longrightarrow>
               status (messages (handleReceiveMessage getTime u msg s) ! i) = Some Sent) \<and>
            (m_id (messages (handleMessageSent getTime u msg s) ! i) \<noteq> m_id (messages s ! i) \<longrightarrow>
               status (messages (handleMessageSent getTime u msg s) ! i) = Some Sent))"
proof -
  have nine: "length (tempIdOf rnd) \<le> 9"
    by (rule length_tempIdOf)
  have sendText: "trim (inputText s) \<noteq> [] \<longrightarrow>
            (\<exists>m. messages (sendMessage u isoNow rnd s) = messages s @ [m] \<and>
                 m_id m = Some (tempIdOf rnd) \<and> length (tempIdOf rnd) \<le> 9 \<and>
                 status m = Some Sent \<and>
                 emitted (sendMessage u isoNow rnd s) =
                   emitted s @ [StopTyping (userId u) (f_userId ac), SendMessageEv m])"
    using assms nine by (simp add: messages_sendMessage emitted_sendMessage)
  have sendImage: "\<exists>m. messages (handleFileUploaded u ac dataImageUrl isoNow s) = messages s @ [m] \<and>
              m_id m = None \<and> status m = Some Sent \<and>
              emitted (handleFileUploaded u ac dataImageUrl isoNow s) =
                emitted s @ [SendMessageEv m]"
    by (simp add: messages_handleFileUploaded emitted_handleFileUploaded)
  have sendVoice: "\<exists>m. messages (handleVoiceRecorded u isoNow rnd localUrl duration s) = messages s @ [m] \<and>
              m_id m = Some (tempIdOf rnd) \<and> length (tempIdOf rnd) \<le> 9 \<and>
              status m = Some Sending \<and>
              emitted (handleVoiceRecorded u isoNow rnd localUrl duration s) = emitted s"
    using assms nine
    by (simp add: messages_handleVoiceRecorded emitted_voice voiceOptimisticMsg_def)
  have sendUploaded: "\<exists>payload.
            emitted (handleVoiceUploaded u ac isoNow tempId localUrl duration dataVoiceUrl s) =
              emitted s @ [SendMessageEv payload]"
    by (simp add: emitted_voice)
  have noSend: "emitted (handleVoiceUploadFailed tempId s) = emitted s"
    by (simp add: emitted_voice)
  have upload: "\<forall>i < length (messages s). m_id (messages s ! i) = Some tempId \<longrightarrow>
            status (messages (handleVoiceUploaded u ac isoNow tempId localUrl duration dataVoiceUrl s) ! i)
              = Some Sent \<and>
            m_id (messages (handleVoiceUploaded u ac isoNow tempId localUrl duration dataVoiceUrl s) ! i)
              = Some tempId \<and>
            status (messages (handleVoiceUploadFailed tempId s) ! i) = Some Failed \<and>
            m_id (messages (handleVoiceUploadFailed tempId s) ! i) = Some tempId"
    by (simp add: messages_handleVoiceUploaded messages_handleVoiceUploadFailed spread_def
        orElse_def voiceOptimisticMsg_def)
  have ids: "\<forall>ev. \<not> replacesLog ev \<and> (\<forall>msg. ev \<noteq> EvReceiveMessage msg) \<and>
               (\<forall>data. ev \<noteq> EvMessageSent data) \<longrightarrow>
            map m_id (take (length (messages s)) (messages (step getTime u now ev s))) =
              map m_id (messages s)"
    using step_keeps_identities by blast
  have merge: "\<forall>i < length (messages s).
            (m_id (messages (handleReceiveMessage getTime u msg s) ! i) \<noteq> m_id (messages s ! i) \<longrightarrow>
               status (messages (handleReceiveMessage getTime u msg s) ! i) = Some Sent) \<and>
            (m_id (messages (handleMessageSent getTime u msg s) ! i) \<noteq> m_id (messages s ! i) \<longrightarrow>
               status (messages (handleMessageSent getTime u msg s) ! i) = Some Sent)"
  proof (intro allI impI conjI)
    fix i assume i: "i < length (messages s)"
      and "m_id (messages (handleReceiveMessage getTime u msg s) ! i) \<noteq> m_id (messages s ! i)"
    then have "messages (handleReceiveMessage getTime u msg s) ! i \<noteq> messages s ! i"
      by auto
    then have "messages (handleReceiveMessage getTime u msg s) = receiveUpdater getTime u msg (messages s)"
      by (auto simp: handleReceiveMessage_messages split: option.splits if_splits)
    with i \<open>messages (handleReceiveMessage getTime u msg s) ! i \<noteq> messages s ! i\<close>
    show "status (messages (handleReceiveMessage getTime u msg s) ! i) = Some Sent"
      using receiveUpdater_changed_is_sent [of i "messages s" getTime u msg] by simp
  next
    fix i assume i: "i < length (messages s)"
      and "m_id (messages (handleMessageSent getTime u msg s) ! i) \<noteq> m_id (messages s ! i)"
    then have "sentUpdater getTime u msg (messages s) ! i \<noteq> messages s ! i"
      by auto
    with i show "status (messages (handleMessageSent getTime u msg s) ! i) = Some Sent"
      using sentUpdater_changed_is_sent [of i "messages s" getTime u msg] by simp
  qed
  from sendText sendImage sendVoice sendUploaded noSend upload ids merge show ?thesis
    by (intro conjI)
qed

text \<open>The text ``hi'' sent in the conversation with peer A.\<close>

theorem local_record_lifecycle_witness:
  "activeChat (connected\<lparr>inputText := js ''hi''\<rparr>) = Some peerA \<and>
   socket (connected\<lparr>inputText := js ''hi''\<rparr>) \<and>
   trim (inputText (connected\<lparr>inputText := js ''hi''\<rparr>)) \<noteq> [] \<and>
   (\<exists>m. messages (sendMessage me ''2024-01-01T00:00:00.000Z'' ''0.x7f3a2b1cq''
            (connected\<lparr>inputText := js ''hi''\<rparr>)) = [m] \<and>
        m_id m = Some ''x7f3a2b1c'' \<and> status m = Some Sent \<and>
        emitted (sendMessage me ''2024-01-01T00:00:00.000Z'' ''0.x7f3a2b1cq''
            (connected\<lparr>inputText := js ''hi''\<rparr>)) = [StopTyping ''u1'' ''u2'', SendMessageEv m])"
proof -
  have h1: "activeChat (connected\<lparr>inputText := js ''hi''\<rparr>) = Some peerA"
    and h2: "socket (connected\<lparr>inputText := js ''hi''\<rparr>)"
    and h3: "trim (inputText (connected\<lparr>inputText := js ''hi''\<rparr>)) \<noteq> []"
    and h4: "messages (connected\<lparr>inputText := js ''hi''\<rparr>) = []"
    and h5: "emitted (connected\<lparr>inputText := js ''hi''\<rparr>) = []"
    by (simp_all add: connected_def initialState_def trim_def isSpace_def js_def emitted_def)
  have h6: "tempIdOf ''0.x7f3a2b1cq'' = ''x7f3a2b1c''" "userId me = ''u1''" "f_userId peerA = ''u2''"
    by (simp_all add: tempIdOf_def me_def peerA_def)
  from local_record_lifecycle [OF h1 h2, of me "''2024-01-01T00:00:00.000Z''" "''0.x7f3a2b1cq''"]
    h1 h2 h3 h4 h5 h6
  show ?thesis by simp
qed

text \<open>
  Claim C5 as stated fails for a text message: sendMessage appends the record with status
  sent, not sending.
\<close>

theorem sendMessage_status_counterexample:
  "messages (sendMessage me ''2024-01-01T00:00:00.000Z'' ''0.x7f3a2b1cq''
      (connected\<lparr>inputText := js ''hi''\<rparr>)) = [placeholder1] \<and>
   idLength placeholder1 < 20 \<and>
   status placeholder1 \<noteq> Some Sending"
  by (simp add: messages_sendMessage example_defs trim_def isSpace_def js_def tempIdOf_def idLength_def)

section \<open>Per-viewer delete\<close>

lemma deleteUpdater_nth:
  "i < length prev \<Longrightarrow>
   deleteUpdater messageId d prev ! i =
     (if m_id (prev ! i) = Some messageId
      then (prev ! i)\<lparr>deletedBy := Some (deletions (prev ! i) @ [d])\<rparr> else prev ! i)"
  by (simp add: deleteUpdater_def appendDeletion_def)

text \<open>
  Claim C6, as amended. A message-deleted event and a local delete of a durable identity
  keep the length of the log and append one entry for the actor to \<open>deletedBy\<close> of every
  log entry with that identity, after the entries already there, and change nothing else;
  the number of entries of the actor grows by one whether or not the actor was already in
  the list.
\<close>

theorem delete_appends_entry:
  "length (messages (handleMessageDeleted messageId by at s)) = length (messages s) \<and>
   length (messages (handleDeleteMessage u isoNow messageId s)) = length (messages s) \<and>
   (\<forall>i < length (messages s).
      messages (handleMessageDeleted messageId by at s) ! i =
        (if m_id (messages s ! i) = Some messageId
         then (messages s ! i)\<lparr>deletedBy :=
                Some (deletions (messages s ! i) @ [\<lparr>d_userId = by, deletedAt = at\<rparr>])\<rparr>
         else messages s ! i) \<and>
      messages (handleDeleteMessage u isoNow messageId s) ! i =
        (if socket s \<and> 20 \<le> length messageId \<and> m_id (messages s ! i) = Some messageId
         then (messages s ! i)\<lparr>deletedBy :=
                Some (deletions (messages s ! i) @ [\<lparr>d_userId = userId u, deletedAt = isoNow\<rparr>])\<rparr>
         else messages s ! i) \<and>
      (m_id (messages s ! i) = Some messageId \<longrightarrow>
         length (filter (\<lambda>d. d_userId d = by)
                   (deletions (messages (handleMessageDeleted messageId by at s) ! i))) =
         Suc (length (filter (\<lambda>d. d_userId d = by) (deletions (messages s ! i))))))"
  by (auto simp: messages_handleDeleteMessage deleteUpdater_nth deletions_def)

text \<open>A message-deleted event of peer A for a confirmed message.\<close>

theorem delete_appends_entry_witness:
  "(0::nat) < length (messages (connected\<lparr>messages := [echo]\<rparr>)) \<and>
   m_id (messages (connected\<lparr>messages := [echo]\<rparr>) ! 0) = Some ''65a1b2c3d4e5f60718293a4b'' \<and>
   deletions (messages (handleMessageDeleted ''65a1b2c3d4e5f60718293a4b'' ''u2''
       ''2024-01-01T00:00:10.000Z'' (connected\<lparr>messages := [echo]\<rparr>)) ! 0) =
     [\<lparr>d_userId = ''u2'', deletedAt = ''2024-01-01T00:00:10.000Z''\<rparr>]"
  using delete_appends_entry [of "''65a1b2c3d4e5f60718293a4b''" "''u2''"
      "''2024-01-01T00:00:10.000Z''" "connected\<lparr>messages := [echo]\<rparr>" me "''t''"]
  by (simp add: example_defs deletions_def)

text \<open>
  Claim C6 as stated fails: a local delete followed by the message-deleted event of the
  same actor for the same message leaves two entries of that actor.
\<close>

theorem delete_twice_counterexample:
  "map d_userId (deletions (messages
      (handleMessageDeleted ''65a1b2c3d4e5f60718293a4b'' ''u1'' ''2024-01-01T00:00:10.000Z''
        (handleDeleteMessage me ''2024-01-01T00:00:01.000Z'' ''65a1b2c3d4e5f60718293a4b''
          (connected\<lparr>messages := [echo]\<rparr>))) ! 0)) = [''u1'', ''u1'']"
  by (simp add: messages_handleDeleteMessage deleteUpdater_def appendDeletion_def deletions_def
      example_defs)

section \<open>Recall\<close>

lemma recalled_updaters:
  assumes "i < length prev" "isRecalled (prev ! i) = Some True"
  shows "isRecalled (sentUpdater getTime u data prev ! i) = Some True"
    and "isRecalled (recallUpdater messageId prev ! i) = Some True"
    and "isRecalled (deleteUpdater messageId d prev ! i) = Some True"
    and "isRecalled (readUpdater u prev ! i) = Some True"
  using assms
  by (simp_all add: sentUpdater_def recallUpdater_def deleteUpdater_def readUpdater_def
      appendDeletion_def)

text \<open>The updater of handleReceiveMessage in terms of the position it replaces.\<close>

lemma receiveUpdater_mergeTarget:
  "receiveUpdater getTime u msg prev =
     (case mergeTarget getTime u msg prev of
        Some k \<Rightarrow> prev[k := (spread (prev ! k) msg)\<lparr>status := Some Sent, m_id := m_id msg\<rparr>]
      | None \<Rightarrow> if list_ex (\<lambda>m. m_id m = m_id msg) prev then prev else prev @ [msg])"
  by (simp add: receiveUpdater_def mergeTarget_def Let_def split: option.splits)

lemma mergeTarget_bound: "mergeTarget getTime u msg prev = Some k \<Longrightarrow> k < length prev"
  by (auto simp: mergeTarget_def findIndex_Some split: if_splits option.splits)

lemma receive_overlay:
  assumes "activeChat s = Some ac" "fromUserId msg = f_userId ac \<or> toUserId msg = f_userId ac"
    and "mergeTarget getTime u msg (messages s) = Some i"
  shows "messages (handleReceiveMessage getTime u msg s) ! i =
           (spread (messages s ! i) msg)\<lparr>status := Some Sent, m_id := m_id msg\<rparr>"
    and "isRecalled (messages (handleReceiveMessage getTime u msg s) ! i) =
           orElse (isRecalled msg) (isRecalled (messages s ! i))"
  using assms mergeTarget_bound [OF assms(3)]
  by (auto simp: handleReceiveMessage_messages receiveUpdater_mergeTarget spread_def)

lemma receive_keeps_recalled:
  assumes i: "i < length prev" and r: "isRecalled (prev ! i) = Some True"
    and no: "\<not> (isRecalled msg = Some False \<and> mergeTarget getTime u msg prev = Some i)"
  shows "i < length (receiveUpdater getTime u msg prev) \<and>
         isRecalled (receiveUpdater getTime u msg prev ! i) = Some True"
proof (cases "mergeTarget getTime u msg prev")
  case None
  with i r show ?thesis by (simp add: receiveUpdater_mergeTarget nth_append)
next
  case (Some k)
  show ?thesis
  proof (cases "k = i")
    case True
    with Some no have "isRecalled msg \<noteq> Some False" by simp
    then have "orElse (isRecalled msg) (Some True) = Some True"
      by (cases "isRecalled msg") (auto simp: orElse_def)
    with Some True i r show ?thesis
      by (simp add: receiveUpdater_mergeTarget spread_def)
  next
    case False
    with Some i r show ?thesis by (simp add: receiveUpdater_mergeTarget)
  qed
qed

lemma step_keeps_recalled:
  assumes "\<not> replacesLog ev" "i < length (messages s)" "isRecalled (messages s ! i) = Some True"
    and "\<not> mergesUnrecalled getTime u i ev s"
  shows "i < length (messages (step getTime u now ev s)) \<and>
         isRecalled (messages (step getTime u now ev s) ! i) = Some True"
proof (cases ev)
  case (EvReceiveMessage msg)
  show ?thesis
  proof (cases "\<exists>ac. activeChat s = Some ac \<and>
                  (fromUserId msg = f_userId ac \<or> toUserId msg = f_userId ac)")
    case True
    with assms(4) EvReceiveMessage
    have "\<not> (isRecalled msg = Some False \<and> mergeTarget getTime u msg (messages s) = Some i)"
      by auto
    from receive_keeps_recalled [OF assms(2,3) this] True EvReceiveMessage show ?thesis
      by (auto simp: handleReceiveMessage_messages)
  next
    case False
    with assms EvReceiveMessage show ?thesis
      by (auto simp: handleReceiveMessage_messages split: option.splits)
  qed
next
  case (EvMessageSent data)
  with assms show ?thesis by (simp add: recalled_updaters)
next
  case (EvMessageRecalled x)
  with assms show ?thesis by (simp add: recalled_updaters)
next
  case (EvMessageDeleted x y z)
  with assms show ?thesis by (simp add: recalled_updaters)
next
  case (EvMessagesRead x)
  with assms show ?thesis
    by (simp add: messages_handleMessagesRead recalled_updaters split: option.splits)
next
  case (EvSendMessage x y)
  with assms show ?thesis by (simp add: messages_sendMessage nth_append split: option.splits)
next
  case (EvRecallMessage x)
  with assms show ?thesis by (simp add: messages_handleRecallMessage recalled_updaters)
next
  case (EvDeleteMessage x y)
  with assms show ?thesis by (simp add: messages_handleDeleteMessage recalled_updaters)
next
  case (EvFileUploaded x y z)
  with assms show ?thesis by (simp add: messages_handleFileUploaded nth_append)
next
  case (EvVoiceRecorded a b c d)
  with assms show ?thesis by (simp add: messages_handleVoiceRecorded nth_append split: option.splits)
next
  case (EvVoiceUploaded a b c d e f)
  with assms show ?thesis
    by (simp add: messages_handleVoiceUploaded spread_def orElse_def voiceOptimisticMsg_def)
next
  case (EvVoiceUploadFailed x)
  with assms show ?thesis by (simp add: messages_handleVoiceUploadFailed)
qed (use assms in simp_all)

text \<open>
  Claim C8, as amended. Let the entry at position \<open>i\<close> of the log be recalled. Over every
  sequence of events that does not replace the log (a conversation switch and its history
  do) and in which no receive-message carrying \<^verbatim>\<open>isRecalled: false\<close> is merged into
  that entry, the entry keeps its position and stays recalled, and MessageBubble renders
  it as the recall notice, which is built from no field of the message. A receive-message
  that is merged into the entry puts there the overlay of the incoming message on the
  entry, so that the \<^verbatim>\<open>isRecalled\<close> field of the incoming message wins when it has
  one.
\<close>

theorem recall_terminal:
  assumes "list_all (\<lambda>e. \<not> replacesLog (snd e)) evs"
    and "i < length (messages s)" and "isRecalled (messages s ! i) = Some True"
    and "noUnrecallingMerge getTime u i evs s"
  shows "i < length (messages (run getTime u evs s)) \<and>
         isRecalled (messages (run getTime u evs s) ! i) = Some True \<and>
         MessageBubble (messages (run getTime u evs s) ! i) isMe =
           RecalledNotice (if isMe then ''chat.youRecalled'' else ''chat.recalled'') \<and>
         (\<forall>msg ac. activeChat s = Some ac \<and>
                   (fromUserId msg = f_userId ac \<or> toUserId msg = f_userId ac) \<and>
                   mergeTarget getTime u msg (messages s) = Some i \<longrightarrow>
            messages (handleReceiveMessage getTime u msg s) ! i =
              (spread (messages s ! i) msg)\<lparr>status := Some Sent, m_id := m_id msg\<rparr> \<and>
            isRecalled (messages (handleReceiveMessage getTime u msg s) ! i) =
              orElse (isRecalled msg) (Some True))"
proof -
  have kept: "i < length (messages (run getTime u evs s)) \<and>
        isRecalled (messages (run getTime u evs s) ! i) = Some True"
    using assms
  proof (induction evs arbitrary: s)
    case Nil
    then show ?case by simp
  next
    case (Cons e evs)
    obtain now ev where e: "e = (now, ev)" by (cases e)
    with Cons.prems have nr: "\<not> replacesLog ev"
      and nm: "\<not> mergesUnrecalled getTime u i ev s"
      and rest: "noUnrecallingMerge getTime u i evs (step getTime u now ev s)"
      by simp_all
    from step_keeps_recalled [OF nr Cons.prems(2,3) nm, of now]
    have st: "i < length (messages (step getTime u now ev s))"
      "isRecalled (messages (step getTime u now ev s) ! i) = Some True"
      by simp_all
    from Cons.prems(1) have "list_all (\<lambda>e. \<not> replacesLog (snd e)) evs" by simp
    from Cons.IH [OF this st rest] e show ?case by simp
  qed
  have overlay: "\<forall>msg ac. activeChat s = Some ac \<and>
                   (fromUserId msg = f_userId ac \<or> toUserId msg = f_userId ac) \<and>
                   mergeTarget getTime u msg (messages s) = Some i \<longrightarrow>
            messages (handleReceiveMessage getTime u msg s) ! i =
              (spread (messages s ! i) msg)\<lparr>status := Some Sent, m_id := m_id msg\<rparr> \<and>
            isRecalled (messages (handleReceiveMessage getTime u msg s) ! i) =
              orElse (isRecalled msg) (Some True)"
    using receive_overlay assms(3) by metis
  from kept have notice: "MessageBubble (messages (run getTime u evs s) ! i) isMe =
           RecalledNotice (if isMe then ''chat.youRecalled'' else ''chat.recalled'')"
    by (simp add: MessageBubble_def)
  from kept notice overlay show ?thesis by blast
qed

text \<open>
  A recalled placeholder: the echo of the server, which has no \<^verbatim>\<open>isRecalled\<close> field,
  is merged into it, and a read receipt follows.
\<close>

theorem recall_terminal_witness:
  "list_all (\<lambda>e. \<not> replacesLog (snd e))
     [(100::nat, EvReceiveMessage echo), (300, EvMessagesRead ''u2'')] \<and>
   (0::nat) < length (messages (connected\<lparr>messages := [placeholder1\<lparr>isRecalled := Some True\<rparr>]\<rparr>)) \<and>
   isRecalled (messages (connected\<lparr>messages := [placeholder1\<lparr>isRecalled := Some True\<rparr>]\<rparr>) ! 0) =
     Some True \<and>
   noUnrecallingMerge exampleGetTime me 0
     [(100, EvReceiveMessage echo), (300, EvMessagesRead ''u2'')]
     (connected\<lparr>messages := [placeholder1\<lparr>isRecalled := Some True\<rparr>]\<rparr>) \<and>
   mergeTarget exampleGetTime me echo [placeholder1\<lparr>isRecalled := Some True\<rparr>] = Some 0 \<and>
   isRecalled (messages (run exampleGetTime me
       [(100, EvReceiveMessage echo), (300, EvMessagesRead ''u2'')]
       (connected\<lparr>messages := [placeholder1\<lparr>isRecalled := Some True\<rparr>]\<rparr>)) ! 0) = Some True \<and>
   MessageBubble (messages (run exampleGetTime me
       [(100, EvReceiveMessage echo), (300, EvMessagesRead ''u2'')]
       (connected\<lparr>messages := [placeholder1\<lparr>isRecalled := Some True\<rparr>]\<rparr>)) ! 0) True =
     RecalledNotice ''chat.youRecalled''"
proof -
  have h1: "list_all (\<lambda>e. \<not> replacesLog (snd e))
     [(100::nat, EvReceiveMessage echo), (300, EvMessagesRead ''u2'')]"
    by simp
  have h2: "(0::nat) < length (messages (connected\<lparr>messages := [placeholder1\<lparr>isRecalled := Some True\<rparr>]\<rparr>))"
    and h3: "isRecalled (messages (connected\<lparr>messages := [placeholder1\<lparr>isRecalled := Some True\<rparr>]\<rparr>) ! 0) =
       Some True"
    by simp_all
  have h4: "noUnrecallingMerge exampleGetTime me 0
     [(100, EvReceiveMessage echo), (300, EvMessagesRead ''u2'')]
     (connected\<lparr>messages := [placeholder1\<lparr>isRecalled := Some True\<rparr>]\<rparr>)"
    by (simp add: example_defs)
  have h5: "mergeTarget exampleGetTime me echo [placeholder1\<lparr>isRecalled := Some True\<rparr>] = Some 0"
    by (simp add: mergeTarget_def example_defs optimisticCandidate_def idLength_def within5000_def)
  from recall_terminal [OF h1 h2 h3 h4, of True] h1 h2 h3 h4 h5
  show ?thesis by simp
qed

text \<open>
  Claim C8 as stated fails for a recalled placeholder: the text ``hi'' is sent, a
  message-recalled event names its placeholder identity, and the echo of the server, which
  carries \<^verbatim>\<open>isRecalled: false\<close>, is merged over it; the merged entry takes the field
  of the echo.
\<close>

theorem recalled_placeholder_merge_counterexample:
  "isRecalled (messages (run exampleGetTime me
      [(0, EvSendMessage ''2024-01-01T00:00:00.000Z'' ''0.x7f3a2b1cq''),
       (100, EvMessageRecalled ''x7f3a2b1c'')]
      (connected\<lparr>inputText := js ''hi''\<rparr>)) ! 0) = Some True \<and>
   isRecalled (messages (run exampleGetTime me
      [(0, EvSendMessage ''2024-01-01T00:00:00.000Z'' ''0.x7f3a2b1cq''),
       (100, EvMessageRecalled ''x7f3a2b1c''),
       (200, EvReceiveMessage (echo\<lparr>isRecalled := Some False\<rparr>))]
      (connected\<lparr>inputText := js ''hi''\<rparr>)) ! 0) = Some False"
  by (simp add: handler_defs effect_defs Let_def example_defs trim_def
      isSpace_def js_def tempIdOf_def recallUpdater_def receiveUpdater_def optimisticCandidate_def
      idLength_def within5000_def spread_def orElse_def)

section \<open>The typing timers\<close>

subsection \<open>The invariant and the four changes that keep it\<close>


lemma timersOK_iff:
  "timersOK s \<longleftrightarrow>
     (\<forall>tm \<in> set (timers s). fst tm < nextTimer s) \<and>
     (\<forall>h. senderTypingTimeoutRef s = Some h \<longrightarrow> h < nextTimer s) \<and>
     (\<forall>h. receiverTypingTimeoutRef s = Some h \<longrightarrow> h < nextTimer s) \<and>
     distinct (map fst (timers s)) \<and>
     (\<forall>tm \<in> set (timers s).
        (isClear tm \<longleftrightarrow> receiverTypingTimeoutRef s = Some (fst tm)) \<and>
        (\<not> isClear tm \<longleftrightarrow> senderTypingTimeoutRef s = Some (fst tm))) \<and>
     (isTyping s \<longrightarrow> (\<exists>tm \<in> set (timers s). isClear tm))"
  by (simp add: timersOK_def list_all_iff list_ex_iff split: option.splits)

lemma timersOK_initial: "timersOK initialState"
  by (simp add: timersOK_def initialState_def)

lemma timersOK_view: "timerView s' = timerView s \<Longrightarrow> timersOK s' = timersOK s"
  unfolding timersOK_iff timerView_def by simp

lemma timers_clearRef: "timers (clearRef r s) = filter (\<lambda>tm. Some (fst tm) \<noteq> r) (timers s)"
  by (cases r) (simp_all add: clearRef_def clearTimeout_def)

lemma timersOK_cancelsReceiver:
  assumes "timersOK s" and cr: "cancelsReceiver s s'"
  shows "timersOK s'"
proof -
  from cr have tms: "timers s' = filter (\<lambda>tm. Some (fst tm) \<noteq> receiverTypingTimeoutRef s) (timers s)"
    and nxt: "nextTimer s' = nextTimer s"
    and refs: "senderTypingTimeoutRef s' = senderTypingTimeoutRef s"
              "receiverTypingTimeoutRef s' = receiverTypingTimeoutRef s"
    and flag: "\<not> isTyping s'"
    by (simp_all add: cancelsReceiver_def)
  from assms(1) have fresh: "\<forall>tm \<in> set (timers s). fst tm < nextTimer s"
    and sref: "\<forall>h. senderTypingTimeoutRef s = Some h \<longrightarrow> h < nextTimer s"
    and rref: "\<forall>h. receiverTypingTimeoutRef s = Some h \<longrightarrow> h < nextTimer s"
    and dist: "distinct (map fst (timers s))"
    and ok: "\<forall>tm \<in> set (timers s).
        (isClear tm \<longleftrightarrow> receiverTypingTimeoutRef s = Some (fst tm)) \<and>
        (\<not> isClear tm \<longleftrightarrow> senderTypingTimeoutRef s = Some (fst tm))"
    unfolding timersOK_iff by blast+
  have a: "\<forall>tm \<in> set (timers s'). fst tm < nextTimer s'"
    using fresh unfolding tms nxt by auto
  have c: "distinct (map fst (timers s'))"
    using dist unfolding tms by (simp add: distinct_map_filter)
  have d: "\<forall>tm \<in> set (timers s').
        (isClear tm \<longleftrightarrow> receiverTypingTimeoutRef s' = Some (fst tm)) \<and>
        (\<not> isClear tm \<longleftrightarrow> senderTypingTimeoutRef s' = Some (fst tm))"
    using ok unfolding tms refs by auto
  from a sref rref c d flag show ?thesis
    unfolding timersOK_iff nxt refs by blast
qed

lemma timersOK_cancelsSender:
  assumes "timersOK s" and cs: "cancelsSender s s'"
  shows "timersOK s'"
proof -
  from cs have tms: "timers s' = filter (\<lambda>tm. Some (fst tm) \<noteq> senderTypingTimeoutRef s) (timers s)"
    and nxt: "nextTimer s' = nextTimer s"
    and refs: "senderTypingTimeoutRef s' = senderTypingTimeoutRef s"
              "receiverTypingTimeoutRef s' = receiverTypingTimeoutRef s"
    and flag: "isTyping s' = isTyping s"
    by (simp_all add: cancelsSender_def)
  from assms(1) have fresh: "\<forall>tm \<in> set (timers s). fst tm < nextTimer s"
    and sref: "\<forall>h. senderTypingTimeoutRef s = Some h \<longrightarrow> h < nextTimer s"
    and rref: "\<forall>h. receiverTypingTimeoutRef s = Some h \<longrightarrow> h < nextTimer s"
    and dist: "distinct (map fst (timers s))"
    and ok: "\<forall>tm \<in> set (timers s).
        (isClear tm \<longleftrightarrow> receiverTypingTimeoutRef s = Some (fst tm)) \<and>
        (\<not> isClear tm \<longleftrightarrow> senderTypingTimeoutRef s = Some (fst tm))"
    and ex: "isTyping s \<longrightarrow> (\<exists>tm \<in> set (timers s). isClear tm)"
    unfolding timersOK_iff by blast+
  have "isTyping s \<longrightarrow> (\<exists>tm \<in> set (timers s). Some (fst tm) \<noteq> senderTypingTimeoutRef s \<and> isClear tm)"
  proof
    assume "isTyping s"
    with ex obtain tm where tm: "tm \<in> set (timers s)" "isClear tm" by blast
    with ok have "senderTypingTimeoutRef s \<noteq> Some (fst tm)" by blast
    with tm show "\<exists>tm \<in> set (timers s). Some (fst tm) \<noteq> senderTypingTimeoutRef s \<and> isClear tm"
      by (intro bexI [of _ tm]) auto
  qed
  then have e: "isTyping s' \<longrightarrow> (\<exists>tm \<in> set (timers s'). isClear tm)"
    unfolding tms flag set_filter by blast
  have a: "\<forall>tm \<in> set (timers s'). fst tm < nextTimer s'"
    using fresh unfolding tms nxt by auto
  have c: "distinct (map fst (timers s'))"
    using dist unfolding tms by (simp add: distinct_map_filter)
  have d: "\<forall>tm \<in> set (timers s').
        (isClear tm \<longleftrightarrow> receiverTypingTimeoutRef s' = Some (fst tm)) \<and>
        (\<not> isClear tm \<longleftrightarrow> senderTypingTimeoutRef s' = Some (fst tm))"
    using ok unfolding tms refs by auto
  from a sref rref c d e show ?thesis
    unfolding timersOK_iff nxt refs by blast
qed

lemma timersOK_armsReceiver:
  assumes "timersOK s" and ar: "armsReceiver due s s'"
  shows "timersOK s'"
proof -
  from ar have tms: "timers s' = filter (\<lambda>tm. Some (fst tm) \<noteq> receiverTypingTimeoutRef s) (timers s)
                     @ [(nextTimer s, due, ClearTyping)]"
    and nxt: "nextTimer s' = Suc (nextTimer s)"
    and refs: "senderTypingTimeoutRef s' = senderTypingTimeoutRef s"
              "receiverTypingTimeoutRef s' = Some (nextTimer s)"
    by (simp_all add: armsReceiver_def)
  from assms(1) have fresh: "\<forall>tm \<in> set (timers s). fst tm < nextTimer s"
    and sref: "\<forall>h. senderTypingTimeoutRef s = Some h \<longrightarrow> h < nextTimer s"
    and dist: "distinct (map fst (timers s))"
    and ok: "\<forall>tm \<in> set (timers s).
        (isClear tm \<longleftrightarrow> receiverTypingTimeoutRef s = Some (fst tm)) \<and>
        (\<not> isClear tm \<longleftrightarrow> senderTypingTimeoutRef s = Some (fst tm))"
    unfolding timersOK_iff by blast+
  have new: "isClear (nextTimer s, due, ClearTyping)"
    by (simp add: isClear_def)
  have a: "\<forall>tm \<in> set (timers s'). fst tm < nextTimer s'"
    using fresh unfolding tms nxt by auto
  have b: "\<forall>h. senderTypingTimeoutRef s' = Some h \<longrightarrow> h < nextTimer s'"
    using sref unfolding nxt refs by auto
  have c: "distinct (map fst (timers s'))"
    using fresh dist unfolding tms by (auto simp: distinct_map_filter)
  have d: "\<forall>tm \<in> set (timers s').
        (isClear tm \<longleftrightarrow> receiverTypingTimeoutRef s' = Some (fst tm)) \<and>
        (\<not> isClear tm \<longleftrightarrow> senderTypingTimeoutRef s' = Some (fst tm))"
  proof
    fix tm assume "tm \<in> set (timers s')"
    then consider "tm = (nextTimer s, due, ClearTyping)"
      | "tm \<in> set (timers s)" "Some (fst tm) \<noteq> receiverTypingTimeoutRef s"
      unfolding tms by auto
    then show "(isClear tm \<longleftrightarrow> receiverTypingTimeoutRef s' = Some (fst tm)) \<and>
        (\<not> isClear tm \<longleftrightarrow> senderTypingTimeoutRef s' = Some (fst tm))"
    proof cases
      case 1
      with new sref show ?thesis unfolding refs by auto
    next
      case 2
      with ok fresh show ?thesis unfolding refs by auto
    qed
  qed
  have e: "\<exists>tm \<in> set (timers s'). isClear tm"
    unfolding tms using new by auto
  from a b c d e show ?thesis unfolding timersOK_iff nxt refs by auto
qed

lemma timersOK_armsSender:
  assumes "timersOK s" and as: "armsSender due f t s s'"
  shows "timersOK s'"
proof -
  from as have tms: "timers s' = filter (\<lambda>tm. Some (fst tm) \<noteq> senderTypingTimeoutRef s) (timers s)
                     @ [(nextTimer s, due, EmitStopTyping f t)]"
    and nxt: "nextTimer s' = Suc (nextTimer s)"
    and refs: "senderTypingTimeoutRef s' = Some (nextTimer s)"
              "receiverTypingTimeoutRef s' = receiverTypingTimeoutRef s"
    and flag: "isTyping s' = isTyping s"
    by (simp_all add: armsSender_def)
  from assms(1) have fresh: "\<forall>tm \<in> set (timers s). fst tm < nextTimer s"
    and rref: "\<forall>h. receiverTypingTimeoutRef s = Some h \<longrightarrow> h < nextTimer s"
    and dist: "distinct (map fst (timers s))"
    and ok: "\<forall>tm \<in> set (timers s).
        (isClear tm \<longleftrightarrow> receiverTypingTimeoutRef s = Some (fst tm)) \<and>
        (\<not> isClear tm \<longleftrightarrow> senderTypingTimeoutRef s = Some (fst tm))"
    and ex: "isTyping s \<longrightarrow> (\<exists>tm \<in> set (timers s). isClear tm)"
    unfolding timersOK_iff by blast+
  have new: "\<not> isClear (nextTimer s, due, EmitStopTyping f t)"
    by (simp add: isClear_def)
  have a: "\<forall>tm \<in> set (timers s'). fst tm < nextTimer s'"
    using fresh unfolding tms nxt by auto
  have b: "\<forall>h. receiverTypingTimeoutRef s' = Some h \<longrightarrow> h < nextTimer s'"
    using rref unfolding nxt refs by auto
  have c: "distinct (map fst (timers s'))"
    using fresh dist unfolding tms by (auto simp: distinct_map_filter)
  have d: "\<forall>tm \<in> set (timers s').
        (isClear tm \<longleftrightarrow> receiverTypingTimeoutRef s' = Some (fst tm)) \<and>
        (\<not> isClear tm \<longleftrightarrow> senderTypingTimeoutRef s' = Some (fst tm))"
  proof
    fix tm assume "tm \<in> set (timers s')"
    then consider "tm = (nextTimer s, due, EmitStopTyping f t)"
      | "tm \<in> set (timers s)" "Some (fst tm) \<noteq> senderTypingTimeoutRef s"
      unfolding tms by auto
    then show "(isClear tm \<longleftrightarrow> receiverTypingTimeoutRef s' = Some (fst tm)) \<and>
        (\<not> isClear tm \<longleftrightarrow> senderTypingTimeoutRef s' = Some (fst tm))"
    proof cases
      case 1
      with new rref show ?thesis unfolding refs by auto
    next
      case 2
      with ok fresh show ?thesis unfolding refs by auto
    qed
  qed
  have e: "isTyping s' \<longrightarrow> (\<exists>tm \<in> set (timers s'). isClear tm)"
  proof
    assume "isTyping s'"
    with ex flag obtain tm where tm: "tm \<in> set (timers s)" "isClear tm" by auto
    with ok have "senderTypingTimeoutRef s \<noteq> Some (fst tm)" by blast
    with tm show "\<exists>tm \<in> set (timers s'). isClear tm"
      unfolding tms by (intro bexI [of _ tm]) auto
  qed
  from a b c d e show ?thesis unfolding timersOK_iff nxt refs by auto
qed

subsection \<open>How each handler changes the timers\<close>

lemma timerView_unchanged:
  "timerView (setSocket s) = timerView s"
  "timerView (handleConnect u s) = timerView s"
  "timerView (handleMessageSent getTime u data s) = timerView s"
  "timerView (handleMessageRecalled messageId s) = timerView s"
  "timerView (handleMessageDeleted messageId by at s) = timerView s"
  "timerView (handleRecallError message s) = timerView s"
  "timerView (handleMessagesRead u byUserId s) = timerView s"
  "timerView (handleNewRequest s) = timerView s"
  "timerView (handleRequestAccepted s) = timerView s"
  "timerView (selectChatLoaded u friend sock dataMessages s) = timerView s"
  "timerView (selectChatFailed s) = timerView s"
  "timerView (handleBackToFriends s) = timerView s"
  "timerView (handleRecallMessage u messageId s) = timerView s"
  "timerView (handleDeleteMessage u isoNow messageId s) = timerView s"
  "timerView (handleFileUploaded u ac dataImageUrl isoNow s) = timerView s"
  "timerView (handleFileUploadFailed s) = timerView s"
  "timerView (handleVoiceRecorded u isoNow rnd localUrl duration s) = timerView s"
  "timerView (handleVoiceUploaded u ac isoNow tempId localUrl duration dataVoiceUrl s) = timerView s"
  "timerView (handleVoiceUploadFailed tempId s) = timerView s"
  by (simp_all add: timerView_def handler_defs effect_defs Let_def split: option.splits)

lemma handleReceiveMessage_timers:
  "timerView (handleReceiveMessage getTime u msg s) = timerView s \<or>
   cancelsReceiver s (handleReceiveMessage getTime u msg s)"
  by (simp add: handleReceiveMessage_def timerView_def cancelsReceiver_def timers_clearRef
      addEffect_def emit_def Let_def split: option.splits)
     (simp add: clearRef_def clearTimeout_def split: option.splits)

lemma onUserStopTyping_timers:
  "timerView (onUserStopTyping from s) = timerView s \<or> cancelsReceiver s (onUserStopTyping from s)"
  by (simp add: onUserStopTyping_def timerView_def cancelsReceiver_def timers_clearRef
      Let_def split: option.splits)
     (simp add: clearRef_def clearTimeout_def split: option.splits)

lemma onUserTyping_timers:
  "timerView (onUserTyping now from s) = timerView s \<or>
   armsReceiver (now + 5000) s (onUserTyping now from s)"
  by (simp add: onUserTyping_def timerView_def armsReceiver_def timers_clearRef setTimeout_def
      Let_def split: option.splits)
     (simp add: clearRef_def clearTimeout_def split: option.splits)

lemma sendMessage_timers:
  "timerView (sendMessage u isoNow rnd s) = timerView s \<or>
   cancelsSender s (sendMessage u isoNow rnd s)"
  by (simp add: sendMessage_def timerView_def cancelsSender_def timers_clearRef
      addEffect_def emit_def Let_def split: option.splits)
     (simp add: clearRef_def clearTimeout_def split: option.splits)

lemma handleInputChange_timers:
  "timerView (handleInputChange u now text s) = timerView s \<or>
   cancelsSender s (handleInputChange u now text s) \<or>
   (\<exists>ac. activeChat s = Some ac \<and>
      armsSender (now + 2000) (userId u) (f_userId ac) s (handleInputChange u now text s))"
  by (simp add: handleInputChange_def timerView_def cancelsSender_def armsSender_def
      timers_clearRef setTimeout_def addEffect_def emit_def Let_def split: option.splits)
     (simp add: clearRef_def clearTimeout_def split: option.splits)

lemma selectChat_timers:
  "\<exists>s1. cancelsSender s s1 \<and> cancelsReceiver s1 (selectChat u friend updateUrl s)"
proof -
  let ?s1 = "clearRef (senderTypingTimeoutRef s) s"
  have "cancelsSender s ?s1"
    by (simp add: cancelsSender_def timers_clearRef)
       (simp add: clearRef_def clearTimeout_def split: option.splits)
  moreover have "cancelsReceiver ?s1 (selectChat u friend updateUrl s)"
    by (simp add: selectChat_def cancelsReceiver_def timers_clearRef addEffect_def emit_def
        Let_def split: option.splits)
       (simp add: clearRef_def clearTimeout_def split: option.splits)
  ultimately show ?thesis by blast
qed

lemma find_handle:
  "find (\<lambda>tm. fst tm = h) tms = Some (h', due, cb) \<Longrightarrow> h' = h \<and> (h, due, cb) \<in> set tms"
  by (induction tms) (auto split: if_splits)

lemma find_handle_None:
  "find (\<lambda>tm. fst tm = h) tms = None \<longleftrightarrow> (\<forall>tm \<in> set tms. fst tm \<noteq> h)"
  by (induction tms) auto

lemma fireTimer_timers:
  assumes "timersOK s"
  shows "fireTimer now h s = s \<or> cancelsReceiver s (fireTimer now h s) \<or>
         cancelsSender s (fireTimer now h s)"
proof (cases "find (\<lambda>tm. fst tm = h) (timers s)")
  case None
  then show ?thesis by (simp add: fireTimer_def)
next
  case (Some tm)
  obtain h' due cb where tm: "tm = (h', due, cb)" by (cases tm)
  with Some find_handle [of h "timers s" h' due cb]
  have mem: "(h, due, cb) \<in> set (timers s)" and h': "h' = h" by simp_all
  from assms mem have ok: "(isClear (h, due, cb) \<longleftrightarrow> receiverTypingTimeoutRef s = Some h) \<and>
        (\<not> isClear (h, due, cb) \<longleftrightarrow> senderTypingTimeoutRef s = Some h)"
    unfolding timersOK_iff by fastforce
  show ?thesis
  proof (cases "due \<le> now")
    case False
    with Some tm show ?thesis by (simp add: fireTimer_def)
  next
    case True
    show ?thesis
    proof (cases cb)
      case ClearTyping
      with ok have "receiverTypingTimeoutRef s = Some h" by (simp add: isClear_def)
      with Some tm True ClearTyping have "cancelsReceiver s (fireTimer now h s)"
        by (simp add: fireTimer_def cancelsReceiver_def runCallback_def clearTimeout_def)
      then show ?thesis by simp
    next
      case (EmitStopTyping f t)
      with ok have "senderTypingTimeoutRef s = Some h" by (simp add: isClear_def)
      with Some tm True EmitStopTyping have "cancelsSender s (fireTimer now h s)"
        by (simp add: fireTimer_def cancelsSender_def runCallback_def clearTimeout_def
            emit_def addEffect_def)
      then show ?thesis by simp
    qed
  qed
qed

text \<open>Every handler changes the timers in one of the four ways, or not at all.\<close>

lemma step_timers:
  assumes "timersOK s"
  shows "timerView (step getTime u now ev s) = timerView s \<or>
         cancelsReceiver s (step getTime u now ev s) \<or>
         cancelsSender s (step getTime u now ev s) \<or>
         (\<exists>due f t. armsSender due f t s (step getTime u now ev s)) \<or>
         (isUserTyping ev \<and> armsReceiver (now + 5000) s (step getTime u now ev s)) \<or>
         (\<exists>s1. cancelsSender s s1 \<and> cancelsReceiver s1 (step getTime u now ev s))"
proof (cases ev)
  case (EvReceiveMessage msg)
  from handleReceiveMessage_timers [of getTime u msg s] show ?thesis
    unfolding EvReceiveMessage step.simps by blast
next
  case (EvUserTyping peer)
  from onUserTyping_timers [of now peer s] show ?thesis
    unfolding EvUserTyping step.simps isUserTyping.simps by blast
next
  case (EvUserStopTyping peer)
  from onUserStopTyping_timers [of peer s] show ?thesis
    unfolding EvUserStopTyping step.simps by blast
next
  case (EvTimer h)
  from fireTimer_timers [OF assms, of now h]
  have "timerView (fireTimer now h s) = timerView s \<or> cancelsReceiver s (fireTimer now h s) \<or>
         cancelsSender s (fireTimer now h s)"
    by (elim disjE) simp_all
  then show ?thesis
    unfolding EvTimer step.simps by blast
next
  case (EvSelectChat friend updateUrl)
  from selectChat_timers [of s u friend updateUrl] show ?thesis
    unfolding EvSelectChat step.simps by blast
next
  case (EvInputChange input)
  from handleInputChange_timers [of u now input s] show ?thesis
    unfolding EvInputChange step.simps by blast
next
  case (EvSendMessage isoNow rnd)
  from sendMessage_timers [of u isoNow rnd s] show ?thesis
    unfolding EvSendMessage step.simps by blast
next
  case EvMount
  show ?thesis unfolding EvMount step.simps by (simp add: timerView_unchanged)
next
  case EvConnect
  show ?thesis unfolding EvConnect step.simps by (simp add: timerView_unchanged)
next
  case (EvMessageSent x)
  show ?thesis unfolding EvMessageSent step.simps by (simp add: timerView_unchanged)
next
  case (EvMessageRecalled x)
  show ?thesis unfolding EvMessageRecalled step.simps by (simp add: timerView_unchanged)
next
  case (EvRecallError x)
  show ?thesis unfolding EvRecallError step.simps by (simp add: timerView_unchanged)
next
  case (EvMessageDeleted x y z)
  show ?thesis unfolding EvMessageDeleted step.simps by (simp add: timerView_unchanged)
next
  case (EvMessagesRead x)
  show ?thesis unfolding EvMessagesRead step.simps by (simp add: timerView_unchanged)
next
  case EvNewRequest
  show ?thesis unfolding EvNewRequest step.simps by (simp add: timerView_unchanged)
next
  case EvRequestAccepted
  show ?thesis unfolding EvRequestAccepted step.simps by (simp add: timerView_unchanged)
next
  case (EvHistoryLoaded x y z)
  show ?thesis unfolding EvHistoryLoaded step.simps by (simp add: timerView_unchanged)
next
  case EvHistoryFailed
  show ?thesis unfolding EvHistoryFailed step.simps by (simp add: timerView_unchanged)
next
  case EvBackToFriends
  show ?thesis unfolding EvBackToFriends step.simps by (simp add: timerView_unchanged)
next
  case (EvRecallMessage x)
  show ?thesis unfolding EvRecallMessage step.simps by (simp add: timerView_unchanged)
next
  case (EvDeleteMessage x y)
  show ?thesis unfolding EvDeleteMessage step.simps by (simp add: timerView_unchanged)
next
  case (EvFileUploaded x y z)
  show ?thesis unfolding EvFileUploaded step.simps by (simp add: timerView_unchanged)
next
  case EvFileUploadFailed
  show ?thesis unfolding EvFileUploadFailed step.simps by (simp add: timerView_unchanged)
next
  case (EvVoiceRecorded a b c d)
  show ?thesis unfolding EvVoiceRecorded step.simps by (simp add: timerView_unchanged)
next
  case (EvVoiceUploaded a b c d e f)
  show ?thesis unfolding EvVoiceUploaded step.simps by (simp add: timerView_unchanged)
next
  case (EvVoiceUploadFailed x)
  show ?thesis unfolding EvVoiceUploadFailed step.simps by (simp add: timerView_unchanged)
qed

lemma timersOK_step:
  assumes "timersOK s"
  shows "timersOK (step getTime u now ev s)"
  using step_timers [OF assms, of getTime u now ev]
proof (elim disjE exE conjE)
  assume "timerView (step getTime u now ev s) = timerView s"
  then have "timersOK (step getTime u now ev s) = timersOK s" by (rule timersOK_view)
  with assms show ?thesis by simp
next
  assume "cancelsReceiver s (step getTime u now ev s)"
  with assms show ?thesis by (rule timersOK_cancelsReceiver)
next
  assume "cancelsSender s (step getTime u now ev s)"
  with assms show ?thesis by (rule timersOK_cancelsSender)
next
  fix due f t assume "armsSender due f t s (step getTime u now ev s)"
  with assms show ?thesis by (rule timersOK_armsSender)
next
  assume "armsReceiver (now + 5000) s (step getTime u now ev s)"
  with assms show ?thesis by (rule timersOK_armsReceiver)
next
  fix s1 assume s1: "cancelsSender s s1" "cancelsReceiver s1 (step getTime u now ev s)"
  from assms s1(1) have "timersOK s1" by (rule timersOK_cancelsSender)
  from this s1(2) show ?thesis by (rule timersOK_cancelsReceiver)
qed

lemma timersOK_run: "timersOK s \<Longrightarrow> timersOK (run getTime u evs s)"
proof (induction evs arbitrary: s)
  case Nil
  then show ?case by simp
next
  case (Cons e evs)
  obtain now ev where "e = (now, ev)" by (cases e)
  with Cons show ?case by (simp add: timersOK_step)
qed

lemma timersOK_reachable: "timersOK (run getTime u evs initialState)"
  by (rule timersOK_run) (rule timersOK_initial)

subsection \<open>Expiry of the typing flag\<close>








subsection \<open>Conversation switch\<close>

lemma clearRef_fields [simp]:
  "socket (clearRef r s) = socket s"
  "activeChat (clearRef r s) = activeChat s"
  "effects (clearRef r s) = effects s"
  "messages (clearRef r s) = messages s"
  "isTyping (clearRef r s) = isTyping s"
  "inputText (clearRef r s) = inputText s"
  "friends (clearRef r s) = friends s"
  "nextTimer (clearRef r s) = nextTimer s"
  "senderTypingTimeoutRef (clearRef r s) = senderTypingTimeoutRef s"
  "receiverTypingTimeoutRef (clearRef r s) = receiverTypingTimeoutRef s"
  by (cases r; simp add: clearRef_def clearTimeout_def)+

lemma selectChat_effects:
  assumes "activeChat s = Some a" "socket s"
  shows "effects (selectChat u b updateUrl s) =
           effects s @ (if updateUrl then [PushChatUrl (Some (f_userId b))] else []) @
           [Emit (StopTyping (userId u) (f_userId a)), FetchHistory (userId u) (f_userId b)]"
  using assms by (simp add: selectChat_def addEffect_def emit_def Let_def)

lemma selectChat_emitted:
  assumes "activeChat s = Some a" "socket s"
  shows "emitted (selectChat u b updateUrl s) = emitted s @ [StopTyping (userId u) (f_userId a)]"
  by (simp add: emitted_def selectChat_effects [OF assms])

lemma selectChat_fields:
  "activeChat (selectChat u b updateUrl s) = Some b"
  "\<not> isTyping (selectChat u b updateUrl s)"
  "messages (selectChat u b updateUrl s) = []"
  by (simp_all add: selectChat_def addEffect_def emit_def Let_def split: option.splits)

lemma selectChat_no_timers:
  assumes "timersOK s"
  shows "timers (selectChat u b updateUrl s) = []"
proof -
  from selectChat_timers [of s u b updateUrl] obtain s1
    where "cancelsSender s s1" "cancelsReceiver s1 (selectChat u b updateUrl s)" by blast
  then have tms: "timers (selectChat u b updateUrl s) =
      filter (\<lambda>tm. Some (fst tm) \<noteq> receiverTypingTimeoutRef s)
        (filter (\<lambda>tm. Some (fst tm) \<noteq> senderTypingTimeoutRef s) (timers s))"
    by (simp add: cancelsSender_def cancelsReceiver_def)
  from assms have "\<forall>tm \<in> set (timers s).
        (isClear tm \<longleftrightarrow> receiverTypingTimeoutRef s = Some (fst tm)) \<and>
        (\<not> isClear tm \<longleftrightarrow> senderTypingTimeoutRef s = Some (fst tm))"
    unfolding timersOK_iff by blast
  then have "\<forall>tm \<in> set (timers s). receiverTypingTimeoutRef s = Some (fst tm) \<or>
        senderTypingTimeoutRef s = Some (fst tm)"
    by blast
  then show ?thesis unfolding tms by (auto simp: filter_empty_conv)
qed

lemma addressedTo_iff:
  "addressedTo b s \<longleftrightarrow> activeChat s = Some b \<and>
     (\<forall>h due f t. (h, due, EmitStopTyping f t) \<in> set (timers s) \<longrightarrow> t = f_userId b)"
  by (auto simp: addressedTo_def list_all_iff split: timer_action.splits)

lemma appended_simple:
  "\<exists>new. effects (setSocket s) = effects s @ new \<and> typingOnlyTo b new"
  "\<exists>new. effects (handleConnect u s) = effects s @ new \<and> typingOnlyTo b new"
  "\<exists>new. effects (handleMessageSent getTime u data s) = effects s @ new \<and> typingOnlyTo b new"
  "\<exists>new. effects (handleMessageRecalled messageId s) = effects s @ new \<and> typingOnlyTo b new"
  "\<exists>new. effects (handleMessageDeleted messageId by at s) = effects s @ new \<and> typingOnlyTo b new"
  "\<exists>new. effects (handleRecallError message s) = effects s @ new \<and> typingOnlyTo b new"
  "\<exists>new. effects (handleMessagesRead u byUserId s) = effects s @ new \<and> typingOnlyTo b new"
  "\<exists>new. effects (handleNewRequest s) = effects s @ new \<and> typingOnlyTo b new"
  "\<exists>new. effects (handleRequestAccepted s) = effects s @ new \<and> typingOnlyTo b new"
  "\<exists>new. effects (selectChatLoaded u friend sock dataMessages s) = effects s @ new \<and> typingOnlyTo b new"
  "\<exists>new. effects (selectChatFailed s) = effects s @ new \<and> typingOnlyTo b new"
  "\<exists>new. effects (handleRecallMessage u messageId s) = effects s @ new \<and> typingOnlyTo b new"
  "\<exists>new. effects (handleDeleteMessage u isoNow messageId s) = effects s @ new \<and> typingOnlyTo b new"
  "\<exists>new. effects (handleFileUploaded u ac dataImageUrl isoNow s) = effects s @ new \<and> typingOnlyTo b new"
  "\<exists>new. effects (handleFileUploadFailed s) = effects s @ new \<and> typingOnlyTo b new"
  "\<exists>new. effects (handleVoiceRecorded u isoNow rnd localUrl duration s) = effects s @ new \<and> typingOnlyTo b new"
  "\<exists>new. effects (handleVoiceUploaded u ac isoNow tempId localUrl duration dataVoiceUrl s) =
      effects s @ new \<and> typingOnlyTo b new"
  "\<exists>new. effects (handleVoiceUploadFailed tempId s) = effects s @ new \<and> typingOnlyTo b new"
  "\<exists>new. effects (onUserTyping now peer s) = effects s @ new \<and> typingOnlyTo b new"
  "\<exists>new. effects (onUserStopTyping peer s) = effects s @ new \<and> typingOnlyTo b new"
  "\<exists>new. effects (handleReceiveMessage getTime u msg s) = effects s @ new \<and> typingOnlyTo b new"
  by (simp_all add: handler_defs effect_defs typingOnlyTo_def Let_def split: option.splits)


lemma appended_handleInputChange:
  assumes "activeChat s = Some b"
  shows "\<exists>new. effects (handleInputChange u now input s) = effects s @ new \<and> typingOnlyTo b new"
  using assms
  by (simp add: handleInputChange_def addEffect_def emit_def setTimeout_def typingOnlyTo_def Let_def)

lemma appended_sendMessage:
  assumes "activeChat s = Some b"
  shows "\<exists>new. effects (sendMessage u isoNow rnd s) = effects s @ new \<and> typingOnlyTo b new"
  using assms
  by (simp add: sendMessage_def addEffect_def emit_def typingOnlyTo_def Let_def)

lemma appended_fireTimer:
  assumes "addressedTo b s"
  shows "\<exists>new. effects (fireTimer now h s) = effects s @ new \<and> typingOnlyTo b new"
proof (cases "find (\<lambda>tm. fst tm = h) (timers s)")
  case None
  then show ?thesis by (simp add: fireTimer_def typingOnlyTo_def)
next
  case (Some tm)
  obtain h' due cb where tm: "tm = (h', due, cb)" by (cases tm)
  with Some find_handle [of h "timers s" h' due cb]
  have mem: "(h, due, cb) \<in> set (timers s)" by simp
  show ?thesis
  proof (cases cb)
    case ClearTyping
    with Some tm show ?thesis
      by (simp add: fireTimer_def runCallback_def clearTimeout_def typingOnlyTo_def)
  next
    case (EmitStopTyping f t)
    with mem assms have "t = f_userId b" by (auto simp: addressedTo_iff)
    with Some tm EmitStopTyping show ?thesis
      by (simp add: fireTimer_def runCallback_def clearTimeout_def emit_def addEffect_def
          typingOnlyTo_def)
  qed
qed

lemma activeChat_unchanged:
  "activeChat (setSocket s) = activeChat s"
  "activeChat (handleConnect u s) = activeChat s"
  "activeChat (handleMessageSent getTime u data s) = activeChat s"
  "activeChat (handleMessageRecalled messageId s) = activeChat s"
  "activeChat (handleMessageDeleted messageId by at s) = activeChat s"
  "activeChat (handleRecallError message s) = activeChat s"
  "activeChat (handleMessagesRead u byUserId s) = activeChat s"
  "activeChat (handleNewRequest s) = activeChat s"
  "activeChat (handleRequestAccepted s) = activeChat s"
  "activeChat (selectChatFailed s) = activeChat s"
  "activeChat (handleRecallMessage u messageId s) = activeChat s"
  "activeChat (handleDeleteMessage u isoNow messageId s) = activeChat s"
  "activeChat (handleFileUploaded u ac dataImageUrl isoNow s) = activeChat s"
  "activeChat (handleFileUploadFailed s) = activeChat s"
  "activeChat (handleVoiceRecorded u isoNow rnd localUrl duration s) = activeChat s"
  "activeChat (handleVoiceUploaded u ac isoNow tempId localUrl duration dataVoiceUrl s) = activeChat s"
  "activeChat (handleVoiceUploadFailed tempId s) = activeChat s"
  "activeChat (onUserTyping now peer s) = activeChat s"
  "activeChat (onUserStopTyping peer s) = activeChat s"
  "activeChat (handleInputChange u now input s) = activeChat s"
  "activeChat (sendMessage u isoNow rnd s) = activeChat s"
  "activeChat (fireTimer now h s) = activeChat s"
  by (simp_all add: handler_defs effect_defs Let_def
      split: option.splits prod.splits timer_action.splits)

text \<open>The stopTyping timeouts pending after a handler were pending before or go to the active peer.\<close>

lemma addressedTo_same_timers:
  assumes "addressedTo b s" "activeChat s' = activeChat s" "timerView s' = timerView s"
  shows "addressedTo b s'"
  using assms by (simp add: addressedTo_def timerView_def)

lemma addressedTo_fewer_timers:
  assumes "addressedTo b s" "activeChat s' = activeChat s"
    "timers s' = filter P (timers s) @ extra"
    "\<forall>h due f t. (h, due, EmitStopTyping f t) \<in> set extra \<longrightarrow> t = f_userId b"
  shows "addressedTo b s'"
  using assms unfolding addressedTo_iff by auto

lemma addressedTo_step:
  assumes ok: "timersOK s" and a: "addressedTo b s" and ev: "\<not> leavesChat ev"
  shows "addressedTo b (step getTime u now ev s)"
proof -
  from a have act: "activeChat s = Some b" by (simp add: addressedTo_def)
  have same: "activeChat (step getTime u now ev s) = activeChat s"
    using ev by (cases ev) (simp_all add: activeChat_unchanged handleReceiveMessage_activeChat
        selectChatLoaded_def addEffect_def emit_def Let_def)
  from step_timers [OF ok, of getTime u now ev] show ?thesis
  proof (elim disjE exE conjE)
    assume "timerView (step getTime u now ev s) = timerView s"
    with a same show ?thesis by (rule addressedTo_same_timers)
  next
    assume "cancelsReceiver s (step getTime u now ev s)"
    then have "timers (step getTime u now ev s) =
        filter (\<lambda>tm. Some (fst tm) \<noteq> receiverTypingTimeoutRef s) (timers s) @ []"
      by (simp add: cancelsReceiver_def)
    with a same show ?thesis by (rule addressedTo_fewer_timers) simp
  next
    assume "cancelsSender s (step getTime u now ev s)"
    then have "timers (step getTime u now ev s) =
        filter (\<lambda>tm. Some (fst tm) \<noteq> senderTypingTimeoutRef s) (timers s) @ []"
      by (simp add: cancelsSender_def)
    with a same show ?thesis by (rule addressedTo_fewer_timers) simp
  next
    fix due f t assume arm: "armsSender due f t s (step getTime u now ev s)"
    then have n: "nextTimer (step getTime u now ev s) \<noteq> nextTimer s"
      by (simp add: armsSender_def)
    have "\<exists>input. ev = EvInputChange input"
    proof (rule ccontr)
      assume "\<not> (\<exists>input. ev = EvInputChange input)"
      then have "nextTimer (step getTime u now ev s) = nextTimer s \<or> isUserTyping ev"
        by (cases ev)
           (simp_all add: handler_defs effect_defs Let_def
              split: option.splits prod.splits timer_action.splits)
      with n have "isUserTyping ev" by simp
      then obtain peer where "ev = EvUserTyping peer" by (cases ev) simp_all
      with arm show False
        by (simp add: armsSender_def onUserTyping_def setTimeout_def Let_def
            split: option.splits if_splits)
    qed
    then obtain input where input: "ev = EvInputChange input" by blast
    from handleInputChange_timers [of u now input s] n input act
    have "armsSender (now + 2000) (userId u) (f_userId b) s (step getTime u now ev s)"
      by (auto simp: timerView_def cancelsSender_def)
    then have "timers (step getTime u now ev s) =
        filter (\<lambda>tm. Some (fst tm) \<noteq> senderTypingTimeoutRef s) (timers s) @
        [(nextTimer s, now + 2000, EmitStopTyping (userId u) (f_userId b))]"
      by (simp add: armsSender_def)
    with a same show ?thesis by (rule addressedTo_fewer_timers) simp
  next
    assume "armsReceiver (now + 5000) s (step getTime u now ev s)"
    then have "timers (step getTime u now ev s) =
        filter (\<lambda>tm. Some (fst tm) \<noteq> receiverTypingTimeoutRef s) (timers s) @
        [(nextTimer s, now + 5000, ClearTyping)]"
      by (simp add: armsReceiver_def)
    with a same show ?thesis by (rule addressedTo_fewer_timers) simp
  next
    fix s1 assume "cancelsSender s s1" "cancelsReceiver s1 (step getTime u now ev s)"
    then have "timers (step getTime u now ev s) =
        filter (\<lambda>tm. Some (fst tm) \<noteq> senderTypingTimeoutRef s \<and>
                      Some (fst tm) \<noteq> receiverTypingTimeoutRef s) (timers s) @ []"
      by (auto simp: cancelsSender_def cancelsReceiver_def intro: filter_cong)
    with a same show ?thesis by (rule addressedTo_fewer_timers) simp
  qed
qed


lemma appended_step:
  assumes a: "addressedTo b s" and ev: "\<not> leavesChat ev"
  shows "\<exists>new. effects (step getTime u now ev s) = effects s @ new \<and> typingOnlyTo b new"
proof -
  from a have act: "activeChat s = Some b" by (simp add: addressedTo_def)
  show ?thesis
  proof (cases ev)
    case (EvTimer h)
    with appended_fireTimer [OF a, of now h] show ?thesis by simp
  next
    case (EvInputChange input)
    with appended_handleInputChange [OF act, of u now input] show ?thesis by simp
  next
    case (EvSendMessage isoNow rnd)
    with appended_sendMessage [OF act, of u isoNow rnd] show ?thesis by simp
  next
    case (EvSelectChat friend updateUrl)
    with ev show ?thesis by simp
  next
    case EvBackToFriends
    with ev show ?thesis by simp
  qed (simp_all add: appended_simple)
qed

lemma appended_run:
  assumes "timersOK s" "addressedTo b s" "list_all (\<lambda>e. \<not> leavesChat (snd e)) evs"
  shows "\<exists>new. effects (run getTime u evs s) = effects s @ new \<and> typingOnlyTo b new"
  using assms
proof (induction evs arbitrary: s)
  case Nil
  then show ?case by (simp add: typingOnlyTo_def)
next
  case (Cons e evs)
  obtain now ev where e: "e = (now, ev)" by (cases e)
  with Cons.prems have nl: "\<not> leavesChat ev" and rest: "list_all (\<lambda>e. \<not> leavesChat (snd e)) evs"
    by simp_all
  let ?s1 = "step getTime u now ev s"
  from appended_step [OF Cons.prems(2) nl, of getTime u now]
  obtain new1 where new1: "effects ?s1 = effects s @ new1" "typingOnlyTo b new1" by blast
  have ok1: "timersOK ?s1" using Cons.prems(1) by (rule timersOK_step)
  have a1: "addressedTo b ?s1" using Cons.prems(1,2) nl by (rule addressedTo_step)
  from Cons.IH [OF ok1 a1 rest]
  obtain new2 where new2: "effects (run getTime u evs ?s1) = effects ?s1 @ new2" "typingOnlyTo b new2"
    by blast
  from new1 new2 e have "effects (run getTime u (e # evs) s) = effects s @ (new1 @ new2)"
    and "typingOnlyTo b (new1 @ new2)"
    by (simp_all add: typingOnlyTo_def)
  then show ?case by blast
qed

lemma switch_invariant:
  assumes ok: "timersOK s" and active: "activeChat s = Some a" and sock: "socket s"
    and stay: "list_all (\<lambda>e. \<not> leavesChat (snd e)) evs"
  shows "timers (selectChat u b updateUrl s) = [] \<and>
         \<not> isTyping (selectChat u b updateUrl s) \<and>
         activeChat (selectChat u b updateUrl s) = Some b \<and>
         emitted (selectChat u b updateUrl s) = emitted s @ [StopTyping (userId u) (f_userId a)] \<and>
         (\<exists>new. effects (run getTime u evs (selectChat u b updateUrl s)) =
                  effects (selectChat u b updateUrl s) @ new \<and>
                typingOnlyTo b new)"
proof -
  let ?s' = "selectChat u b updateUrl s"
  have none: "timers ?s' = []" using ok by (rule selectChat_no_timers)
  have ok': "timersOK ?s'"
    using timersOK_step [OF ok, of getTime u 0 "EvSelectChat b updateUrl"] by simp
  have a': "addressedTo b ?s'"
    by (simp add: addressedTo_def none selectChat_fields)
  from appended_run [OF ok' a' stay, of getTime u]
  have later: "\<exists>new. effects (run getTime u evs ?s') = effects ?s' @ new \<and> typingOnlyTo b new" .
  from none selectChat_fields(1,2) [of u b updateUrl s] selectChat_emitted [OF active sock, of u b updateUrl]
    later
  show ?thesis by blast
qed

subsection \<open>States of the event loop\<close>

lemma socket_step: "socket s \<Longrightarrow> socket (step getTime u now ev s)"
  by (cases ev)
     (simp_all add: handler_defs effect_defs Let_def
        split: option.splits prod.splits timer_action.splits)

lemma socket_run: "socket s \<Longrightarrow> socket (run getTime u evs s)"
proof (induction evs arbitrary: s)
  case Nil
  then show ?case by simp
next
  case (Cons e evs)
  obtain now ev where "e = (now, ev)" by (cases e)
  with Cons show ?case by (simp add: socket_step)
qed

lemma socket_mounted: "socket (run getTime u ((t0, EvMount) # pre) initialState)"
  by (simp add: socket_run setSocket_def)





text \<open>
  Claim C9. In every state the event loop reaches from the initial state, the component
  being mounted first, in which peer \<open>a\<close> is the active conversation, selectChat to peer
  \<open>b\<close> leaves no timeout pending (the sender and the receiver timeout are both
  cancelled), clears the typing flag and emits exactly one socket event, the stopTyping
  addressed to \<open>a\<close>. Afterwards, whatever events are handled while \<open>b\<close> stays the active
  conversation, every typing and stopTyping event that is emitted is addressed to \<open>b\<close>:
  nothing armed for \<open>a\<close> fires later.
\<close>

theorem switch_conversation:
  assumes reach: "s = run getTime u ((t0, EvMount) # pre) initialState"
    and active: "activeChat s = Some a"
    and stay: "list_all (\<lambda>e. \<not> leavesChat (snd e)) evs"
  shows "timers (selectChat u b updateUrl s) = [] \<and>
         \<not> isTyping (selectChat u b updateUrl s) \<and>
         activeChat (selectChat u b updateUrl s) = Some b \<and>
         emitted (selectChat u b updateUrl s) = emitted s @ [StopTyping (userId u) (f_userId a)] \<and>
         (\<exists>new. effects (run getTime u evs (selectChat u b updateUrl s)) =
                  effects (selectChat u b updateUrl s) @ new \<and>
                typingOnlyTo b new)"
proof -
  have ok: "timersOK s" unfolding reach by (rule timersOK_reachable)
  have sock: "socket s" unfolding reach by (rule socket_mounted)
  from ok active sock stay show ?thesis by (rule switch_invariant)
qed

lemma chatting_state:
  "chatting = initialState\<lparr>socket := True, activeChat := Some peerA,
      inputText := js ''h'', isTyping := True,
      senderTypingTimeoutRef := Some 2, receiverTypingTimeoutRef := Some 1,
      timers := [(1, 5030, ClearTyping), (2, 2100, EmitStopTyping ''u1'' ''u2'')],
      nextTimer := 3,
      effects := [FetchHistory ''u1'' ''u2'', Emit (MarkAsRead ''u1'' ''u2''), ScrollToBottom True,
                  Emit (Typing ''u1'' ''u2'')]\<rparr>"
  by (simp add: chatting_def openingEvents_def handler_defs effect_defs Let_def example_defs js_def)

text \<open>
  The switch from peer A, with both timeouts pending, to peer B, followed by a keystroke
  and the expiry of its idle timeout.
\<close>

theorem switch_conversation_witness:
  "chatting = run exampleGetTime me
      ((0, EvMount) # tl openingEvents @ [(30, EvUserTyping ''u2''), (100, EvInputChange (js ''h''))])
      initialState \<and>
   activeChat chatting = Some peerA \<and>
   length (timers chatting) = 2 \<and> isTyping chatting \<and>
   list_all (\<lambda>e. \<not> leavesChat (snd e)) [(200::nat, EvInputChange (js ''y'')), (2200, EvTimer 3)] \<and>
   timers (selectChat me peerB True chatting) = [] \<and>
   \<not> isTyping (selectChat me peerB True chatting) \<and>
   emitted (selectChat me peerB True chatting) =
     [MarkAsRead ''u1'' ''u2'', Typing ''u1'' ''u2'', StopTyping ''u1'' ''u2''] \<and>
   emitted (run exampleGetTime me [(200::nat, EvInputChange (js ''y'')), (2200, EvTimer 3)]
     (selectChat me peerB True chatting)) =
     [MarkAsRead ''u1'' ''u2'', Typing ''u1'' ''u2'', StopTyping ''u1'' ''u2'',
      Typing ''u1'' ''u3'', StopTyping ''u1'' ''u3'']"
proof -
  have h1: "chatting = run exampleGetTime me
      ((0, EvMount) # tl openingEvents @ [(30, EvUserTyping ''u2''), (100, EvInputChange (js ''h''))])
      initialState"
    by (simp add: chatting_def openingEvents_def)
  have h2: "activeChat chatting = Some peerA"
    and e: "emitted chatting = [MarkAsRead ''u1'' ''u2'', Typing ''u1'' ''u2'']"
    and l: "length (timers chatting) = 2" "isTyping chatting"
    by (simp_all add: chatting_state initialState_def emitted_def)
  have h3: "list_all (\<lambda>e. \<not> leavesChat (snd e)) [(200::nat, EvInputChange (js ''y'')), (2200, EvTimer 3)]"
    by simp
  have r: "emitted (run exampleGetTime me [(200::nat, EvInputChange (js ''y'')), (2200, EvTimer 3)]
     (selectChat me peerB True chatting)) =
     [MarkAsRead ''u1'' ''u2'', Typing ''u1'' ''u2'', StopTyping ''u1'' ''u2'',
      Typing ''u1'' ''u3'', StopTyping ''u1'' ''u3'']"
    by (simp add: chatting_state handler_defs effect_defs Let_def example_defs emitted_def js_def)
  from switch_conversation [OF h1 h2 h3, where b = peerB and updateUrl = True] h1 h2 h3 e l r
  show ?thesis by (simp add: me_def peerA_def)
qed

end
